theory Spec2Isabelle
  imports Main "HOL-Library.Word"
begin

section \<open>JavaScript strings\<close>

text \<open>
  A JavaScript string is a sequence of UTF-16 code units.  ASCII literals of the source
  are written with \<open>str\<close>.
\<close>

type_synonym jschar = "16 word"
type_synonym jsstring = "jschar list"

definition str :: "string \<Rightarrow> jsstring" where
  "str s = map of_char s"

text \<open>
  The code units removed by \<^verbatim>\<open>String.prototype.trim\<close>: WhiteSpace (TAB, VT, FF, SP, NBSP,
  ZWNBSP and the space separators) and LineTerminator (LF, CR, LS, PS).
\<close>

definition whitespace_units :: "jschar list" where
  "whitespace_units =
     [0x0009, 0x000A, 0x000B, 0x000C, 0x000D, 0x0020, 0x00A0, 0x1680,
      0x2000, 0x2001, 0x2002, 0x2003, 0x2004, 0x2005, 0x2006, 0x2007,
      0x2008, 0x2009, 0x200A, 0x2028, 0x2029, 0x202F, 0x205F, 0x3000, 0xFEFF]"

definition is_ws :: "jschar \<Rightarrow> bool" where
  "is_ws c = (c \<in> set whitespace_units)"

definition trim :: "jsstring \<Rightarrow> jsstring" where
  "trim s = rev (dropWhile is_ws (rev (dropWhile is_ws s)))"

text \<open>
  \<^verbatim>\<open>s.split(sep)\<close> for a separator of one code unit.  The result is never empty:
  \<^verbatim>\<open>"".split(",")\<close> is \<^verbatim>\<open>[""]\<close>.
\<close>

fun split_on :: "'a \<Rightarrow> 'a list \<Rightarrow> 'a list list" where
  "split_on sep [] = [[]]"
| "split_on sep (x # xs) =
     (if x = sep then [] # split_on sep xs
      else (case split_on sep xs of
              [] \<Rightarrow> [[x]]
            | y # ys \<Rightarrow> (x # y) # ys))"

text \<open>Array indexing: an index past the end reads \<^verbatim>\<open>undefined\<close>, here \<open>None\<close>.\<close>

definition arr_get :: "'a list \<Rightarrow> nat \<Rightarrow> 'a option" where
  "arr_get xs i = (if i < length xs then Some (xs ! i) else None)"

text \<open>\<^verbatim>\<open>!v\<close> for a value that is a string or \<^verbatim>\<open>undefined\<close>.\<close>

fun falsy :: "jsstring option \<Rightarrow> bool" where
  "falsy None = True"
| "falsy (Some s) = (s = [])"

definition newline :: jschar where "newline = 0x0A"
definition comma :: jschar where "comma = 0x2C"
definition colon :: jschar where "colon = 0x3A"
definition semicolon :: jschar where "semicolon = 0x3B"

section \<open>Data model (types.ts)\<close>

datatype ImageStyle = RUSTIC_DARK | BRIGHT_MODERN | SOCIAL_MEDIA

text \<open>An element of \<^verbatim>\<open>editHistory\<close>: the source's fields \<^verbatim>\<open>prompt\<close> and \<^verbatim>\<open>imageUrl\<close>.\<close>

record EditRecord =
  edit_prompt :: jsstring
  edit_imageUrl :: jsstring

text \<open>\<^verbatim>\<open>GeneratedImage\<close>; the field \<^verbatim>\<open>id\<close> is \<open>id_field\<close> here.\<close>

record GeneratedImage =
  id_field :: jsstring
  dishName :: jsstring
  imageUrl :: jsstring
  originalPrompt :: jsstring
  editHistory :: "EditRecord list"

section \<open>The image generation service (geminiService.generateFoodImage)\<close>

datatype AspectRatio = Ratio_1_1 | Ratio_3_4 | Ratio_4_3 | Ratio_9_16 | Ratio_16_9

text \<open>The argument of \<^verbatim>\<open>ai.models.generateImages\<close>, with \<^verbatim>\<open>config\<close> flattened.\<close>

record GenerateImagesParameters =
  model :: jsstring
  prompt :: jsstring
  numberOfImages :: nat
  outputMimeType :: jsstring
  aspectRatio :: AspectRatio

text \<open>
  The remote call either throws an error with a message (\<open>Inl\<close>) or returns a response
  whose \<^verbatim>\<open>generatedImages\<close> is undefined (\<open>None\<close>) or the list of the images'
  \<^verbatim>\<open>imageBytes\<close>.
\<close>

type_synonym GenerateImagesResult = "jsstring + jsstring list option"

definition fullPrompt :: "ImageStyle \<Rightarrow> jsstring \<Rightarrow> jsstring" where
  "fullPrompt style p =
     (case style of
        RUSTIC_DARK \<Rightarrow>
          str ''High-end, professional food photography, rustic, dark lighting, moody, close-up, '' @ p
      | BRIGHT_MODERN \<Rightarrow>
          str ''High-end, professional food photography, bright, modern, clean background, vibrant colors, '' @ p
      | SOCIAL_MEDIA \<Rightarrow>
          str ''High-end, professional food photography, top-down view, social media ready, bright, clean, well-lit, '' @ p)"

definition styleAspectRatio :: "ImageStyle \<Rightarrow> AspectRatio" where
  "styleAspectRatio style =
     (case style of
        RUSTIC_DARK \<Rightarrow> Ratio_4_3
      | BRIGHT_MODERN \<Rightarrow> Ratio_16_9
      | SOCIAL_MEDIA \<Rightarrow> Ratio_1_1)"

definition generateRequest :: "ImageStyle \<Rightarrow> jsstring \<Rightarrow> GenerateImagesParameters" where
  "generateRequest style p =
     \<lparr>model = str ''imagen-4.0-generate-001'',
      prompt = fullPrompt style p,
      numberOfImages = 1,
      outputMimeType = str ''image/jpeg'',
      aspectRatio = styleAspectRatio style\<rparr>"

text \<open>
  \<open>generateFoodImage\<close> returns the thrown message (\<open>Inl\<close>) or the base64 image bytes
  (\<open>Inr\<close>), together with the requests it sent to the remote service.
\<close>

definition generateFoodImage ::
  "jsstring option \<Rightarrow> (GenerateImagesParameters \<Rightarrow> GenerateImagesResult) \<Rightarrow>
   jsstring \<Rightarrow> ImageStyle \<Rightarrow> (jsstring + jsstring) \<times> GenerateImagesParameters list" where
  "generateFoodImage API_KEY generateImages p style =
     (if falsy API_KEY then (Inl (str ''API Key is missing. Cannot generate image.''), [])
      else
        let request = generateRequest style p in
        ((case generateImages request of
            Inl message \<Rightarrow> Inl (str ''Failed to generate image: '' @ message)
          | Inr None \<Rightarrow> Inl (str ''Failed to generate image: '' @ str ''No image generated.'')
          | Inr (Some []) \<Rightarrow> Inl (str ''Failed to generate image: '' @ str ''No image generated.'')
          | Inr (Some (imageBytes # _)) \<Rightarrow> Inr imageBytes),
         [request]))"

section \<open>Batch generation (App.handleGenerateImages)\<close>

record AppState =
  menuText :: jsstring
  selectedStyle :: ImageStyle
  generatedImages :: "GeneratedImage list"
  loading :: bool
  error :: "jsstring option"
  editingImage :: "GeneratedImage option"

text \<open>
  What one run of the handler meets outside the component: the configured key, the
  remote service's answer to the \<open>i\<close>-th call of the batch, and the time each call
  takes to settle.  Calls settle in the order of their latencies, calls of equal latency
  in the order they were issued.
\<close>

record GenEnv =
  gen_API_KEY :: "jsstring option"
  generateImages :: "nat \<Rightarrow> GenerateImagesParameters \<Rightarrow> GenerateImagesResult"
  latency :: "nat \<Rightarrow> nat"

definition dishes_of :: "jsstring \<Rightarrow> jsstring list" where
  "dishes_of menu = filter (\<lambda>line. line \<noteq> []) (map trim (split_on newline menu))"

definition generateErrorMessage :: "jsstring \<Rightarrow> jsstring" where
  \<open>generateErrorMessage dish =
     str ''Failed to generate image for "'' @ dish @ str ''". Please try again.''\<close>

definition dataUrl :: "jsstring \<Rightarrow> jsstring \<Rightarrow> jsstring" where
  "dataUrl mimeType base64 = str ''data:'' @ mimeType @ str '';base64,'' @ base64"

text \<open>The object a successful promise resolves to (lines 34 to 41).\<close>

definition newImage :: "jsstring \<Rightarrow> jsstring \<Rightarrow> jsstring \<Rightarrow> GeneratedImage" where
  "newImage uuid dish base64ImageBytes =
     \<lparr>id_field = uuid,
      dishName = dish,
      imageUrl = dataUrl (str ''image/jpeg'') base64ImageBytes,
      originalPrompt = dish,
      editHistory = []\<rparr>"

text \<open>
  The continuation of the \<open>i\<close>-th mapped promise after its \<^verbatim>\<open>await\<close>: on success it
  draws an id from \<^verbatim>\<open>uuidv4\<close> (the \<open>draws\<close>-th value of the generator) and resolves to
  the new image; on failure it overwrites the error state and resolves to \<^verbatim>\<open>null\<close>.
  The state threaded through is (error, number of ids drawn, the results array).
\<close>

type_synonym Settling = "jsstring option \<times> nat \<times> GeneratedImage option list"

definition settle ::
  "(nat \<Rightarrow> jsstring) \<Rightarrow> jsstring list \<Rightarrow> (nat \<Rightarrow> jsstring + jsstring) \<Rightarrow>
   nat \<Rightarrow> Settling \<Rightarrow> Settling" where
  "settle uuidv4 dishes outcome i s =
     (case s of (err, draws, results) \<Rightarrow>
        (case outcome i of
           Inr base64ImageBytes \<Rightarrow>
             (err, Suc draws,
              results[i := Some (newImage (uuidv4 draws) (dishes ! i) base64ImageBytes)])
         | Inl _ \<Rightarrow>
             (Some (generateErrorMessage (dishes ! i)), draws, results[i := None])))"

definition settle_order :: "(nat \<Rightarrow> nat) \<Rightarrow> nat \<Rightarrow> nat list" where
  "settle_order lat n = sort_key lat [0..<n]"

text \<open>
  The \<open>i\<close>-th promise of \<^verbatim>\<open>dishes.map(async (dish) => ...)\<close>: the call of
  \<open>generateFoodImage\<close> for the \<open>i\<close>-th dish, answered by the \<open>i\<close>-th answer of the remote
  service.
\<close>

definition batchCall ::
  "GenEnv \<Rightarrow> ImageStyle \<Rightarrow> jsstring list \<Rightarrow> nat \<Rightarrow>
   (jsstring + jsstring) \<times> GenerateImagesParameters list" where
  "batchCall env style dishes i =
     generateFoodImage (gen_API_KEY env) (generateImages env i) (dishes ! i) style"

definition batchOutcome ::
  "GenEnv \<Rightarrow> ImageStyle \<Rightarrow> jsstring list \<Rightarrow> nat \<Rightarrow> jsstring + jsstring" where
  "batchOutcome env style dishes i = fst (batchCall env style dishes i)"

text \<open>
  The handler returns the new component state, the number of ids drawn so far, the
  calls of \<open>generateFoodImage\<close> it made (prompt and style) and the requests that reached
  the remote service.
\<close>

definition handleGenerateImages ::
  "(nat \<Rightarrow> jsstring) \<Rightarrow> GenEnv \<Rightarrow> nat \<Rightarrow> AppState \<Rightarrow>
   AppState \<times> nat \<times> (jsstring \<times> ImageStyle) list \<times> GenerateImagesParameters list" where
  "handleGenerateImages uuidv4 env draws st =
     (if trim (menuText st) = [] then
        (st\<lparr>error := Some (str ''Please enter your menu items.'')\<rparr>, draws, [], [])
      else
        let st1 = st\<lparr>loading := True, error := None, generatedImages := []\<rparr>;
            dishes = dishes_of (menuText st);
            n = length dishes;
            settled = fold (settle uuidv4 dishes (batchOutcome env (selectedStyle st) dishes))
                        (settle_order (latency env) n)
                        (error st1, draws, replicate n None);
            newImages = List.map_filter (\<lambda>result. result) (snd (snd settled))
        in (st1\<lparr>error := fst settled, generatedImages := newImages, loading := False\<rparr>,
            fst (snd settled),
            map (\<lambda>dish. (dish, selectedStyle st)) dishes,
            concat (map (\<lambda>i. snd (batchCall env (selectedStyle st) dishes i)) [0..<n])))"

text \<open>The error messages the page shows: \<^verbatim>\<open>{error && <p>{error}</p>}\<close>.\<close>

definition reportedErrors :: "AppState \<Rightarrow> jsstring list" where
  "reportedErrors st = (case error st of None \<Rightarrow> [] | Some message \<Rightarrow> [message])"

section \<open>The image editing service (geminiService.editFoodImage)\<close>

text \<open>
  The response of \<^verbatim>\<open>ai.models.generateContent\<close>, as far as the code reads it.  Every
  field the code reaches through \<^verbatim>\<open>?.\<close> may be undefined.
\<close>

record Blob =
  blob_data :: "jsstring option"
  blob_mimeType :: "jsstring option"

record Part =
  inlineData :: "Blob option"

record Content =
  parts :: "Part list option"

record Candidate =
  content :: "Content option"

record GenerateContentResponse =
  candidates :: "Candidate list option"

text \<open>
  The request: the image part's \<^verbatim>\<open>data\<close> and \<^verbatim>\<open>mimeType\<close> and the text part.  The
  response modalities are always \<^verbatim>\<open>[Modality.IMAGE]\<close>.
\<close>

record GenerateContentParameters =
  gc_model :: jsstring
  gc_data :: jsstring
  gc_mimeType :: jsstring
  gc_text :: jsstring

type_synonym GenerateContentResult = "jsstring + GenerateContentResponse"

definition startsWith :: "jsstring \<Rightarrow> jsstring \<Rightarrow> bool" where
  "startsWith s pre = (take (length pre) s = pre)"

definition response_parts :: "GenerateContentResponse \<Rightarrow> Part list option" where
  "response_parts response =
     (case candidates response of
        None \<Rightarrow> None
      | Some cs \<Rightarrow>
          (case arr_get cs 0 of
             None \<Rightarrow> None
           | Some c \<Rightarrow> (case content c of None \<Rightarrow> None | Some ct \<Rightarrow> parts ct)))"

definition is_image_part :: "Part \<Rightarrow> bool" where
  "is_image_part part =
     (case inlineData part of
        None \<Rightarrow> False
      | Some b \<Rightarrow>
          (case blob_mimeType b of
             None \<Rightarrow> False
           | Some m \<Rightarrow> startsWith m (str ''image/'')))"

definition editedImagePart :: "GenerateContentResponse \<Rightarrow> Part option" where
  "editedImagePart response =
     (case response_parts response of
        None \<Rightarrow> None
      | Some ps \<Rightarrow> find is_image_part ps)"

definition editFoodImage ::
  "jsstring option \<Rightarrow> (GenerateContentParameters \<Rightarrow> GenerateContentResult) \<Rightarrow>
   jsstring \<Rightarrow> jsstring \<Rightarrow> jsstring \<Rightarrow>
   (jsstring + jsstring) \<times> GenerateContentParameters list" where
  "editFoodImage API_KEY generateContent base64ImageData mimeType editPrompt =
     (if falsy API_KEY then (Inl (str ''API Key is missing. Cannot edit image.''), [])
      else
        let request = \<lparr>gc_model = str ''gemini-2.5-flash-image'',
                       gc_data = base64ImageData,
                       gc_mimeType = mimeType,
                       gc_text = editPrompt\<rparr>;
            noImage = Inl (str ''Failed to edit image: '' @
                           str ''No edited image returned by the model.'')
        in
        ((case generateContent request of
            Inl message \<Rightarrow> Inl (str ''Failed to edit image: '' @ message)
          | Inr response \<Rightarrow>
              (case editedImagePart response of
                 None \<Rightarrow> noImage
               | Some part \<Rightarrow>
                   (case inlineData part of
                      None \<Rightarrow> noImage
                    | Some b \<Rightarrow>
                        (case blob_data b of
                           None \<Rightarrow> noImage
                         | Some d \<Rightarrow> if d = [] then noImage else Inr d)))),
         [request]))"

section \<open>The editor (ImageEditorModal.handleEdit)\<close>

text \<open>
  The component's state; its \<^verbatim>\<open>editingImage\<close> and \<^verbatim>\<open>error\<close> are \<open>modal_editingImage\<close>
  and \<open>modal_error\<close> here, apart from the fields of the same names of \<open>App\<close>.
\<close>

record ModalState =
  editPrompt :: jsstring
  modal_editingImage :: bool
  modal_error :: "jsstring option"
  currentEditedImageUrl :: jsstring

record EditEnv =
  edit_API_KEY :: "jsstring option"
  generateContent :: "GenerateContentParameters \<Rightarrow> GenerateContentResult"

text \<open>\<^verbatim>\<open>url.split(',')[1]\<close> and \<^verbatim>\<open>url.split(';')[0].split(':')[1]\<close>.\<close>

definition extractBase64Data :: "jsstring \<Rightarrow> jsstring option" where
  "extractBase64Data url = arr_get (split_on comma url) 1"

definition extractMimeType :: "jsstring \<Rightarrow> jsstring option" where
  "extractMimeType url =
     (case arr_get (split_on semicolon url) 0 of
        None \<Rightarrow> None
      | Some header \<Rightarrow> arr_get (split_on colon header) 1)"

text \<open>
  Lines 29 to 34 of the handler: both extractions, and the check that throws when one of
  them is undefined or empty (\<open>None\<close> here).
\<close>

definition decodeDataUrl :: "jsstring \<Rightarrow> (jsstring \<times> jsstring) option" where
  "decodeDataUrl url =
     (case (extractBase64Data url, extractMimeType url) of
        (Some base64Data, Some mimeType) \<Rightarrow>
          if base64Data = [] \<or> mimeType = [] then None else Some (base64Data, mimeType)
      | _ \<Rightarrow> None)"

definition editFailure :: "jsstring \<Rightarrow> jsstring" where
  "editFailure message = str ''Failed to edit image: '' @ message"

text \<open>
  The handler returns the component's new state, the image passed to
  \<^verbatim>\<open>onImageEdited\<close> when it is called, and the requests sent to the remote service.
\<close>

definition handleEdit ::
  "EditEnv \<Rightarrow> GeneratedImage \<Rightarrow> ModalState \<Rightarrow>
   ModalState \<times> GeneratedImage option \<times> GenerateContentParameters list" where
  "handleEdit env img m =
     (if trim (editPrompt m) = [] then
        (m\<lparr>modal_error := Some (str ''Please enter an edit prompt.'')\<rparr>, None, [])
      else
        let m1 = m\<lparr>modal_editingImage := True, modal_error := None\<rparr> in
        (case decodeDataUrl (currentEditedImageUrl m) of
           None \<Rightarrow>
             (m1\<lparr>modal_error :=
                    Some (editFailure (str ''Could not extract image data for editing.'')),
                  modal_editingImage := False\<rparr>, None, [])
         | Some (base64Data, mimeType) \<Rightarrow>
             (case editFoodImage (edit_API_KEY env) (generateContent env)
                     base64Data mimeType (editPrompt m) of
                (Inl message, requests) \<Rightarrow>
                  (m1\<lparr>modal_error := Some (editFailure message),
                      modal_editingImage := False\<rparr>, None, requests)
              | (Inr editedBase64, requests) \<Rightarrow>
                  let newImageUrl = dataUrl mimeType editedBase64;
                      updatedImage =
                        img\<lparr>imageUrl := newImageUrl,
                            editHistory := editHistory img @
                              [\<lparr>edit_prompt = editPrompt m,
                                edit_imageUrl = newImageUrl\<rparr>]\<rparr>
                  in (m1\<lparr>currentEditedImageUrl := newImageUrl,
                         editPrompt := [],
                         modal_editingImage := False\<rparr>,
                      Some updatedImage, requests))))"

section \<open>The other handlers of App and the whole interface\<close>

definition handleEditImage :: "GeneratedImage \<Rightarrow> AppState \<Rightarrow> AppState" where
  "handleEditImage img st = st\<lparr>editingImage := Some img\<rparr>"

definition handleImageEdited :: "GeneratedImage \<Rightarrow> AppState \<Rightarrow> AppState" where
  "handleImageEdited updatedImage st =
     st\<lparr>generatedImages :=
          map (\<lambda>img. if id_field img = id_field updatedImage then updatedImage else img)
            (generatedImages st),
        editingImage := Some updatedImage\<rparr>"

definition closeEditorModal :: "AppState \<Rightarrow> AppState" where
  "closeEditorModal st = st\<lparr>editingImage := None\<rparr>"

text \<open>
  The interface: the state of \<open>App\<close>, the state of the editor while it is mounted, and the
  number of ids drawn from \<^verbatim>\<open>uuidv4\<close> so far.
\<close>

record UI =
  app :: AppState
  modal :: "ModalState option"
  uuid_draws :: nat

definition initialApp :: AppState where
  "initialApp =
     \<lparr>menuText = [], selectedStyle = BRIGHT_MODERN, generatedImages = [],
      loading = False, error = None, editingImage = None\<rparr>"

definition initialUI :: UI where
  "initialUI = \<lparr>app = initialApp, modal = None, uuid_draws = 0\<rparr>"

definition mountModal :: "GeneratedImage \<Rightarrow> ModalState" where
  "mountModal img =
     \<lparr>editPrompt = [], modal_editingImage = False, modal_error = None,
      currentEditedImageUrl = imageUrl img\<rparr>"

datatype Event =
    ChangeMenuText jsstring
  | SelectStyle ImageStyle
  | ClickGenerate GenEnv
  | ClickEditPhoto nat
  | ChangeEditPrompt jsstring
  | ClickApplyEdit EditEnv
  | ClickClose

text \<open>
  One user action, run to completion.  The controls of \<open>App\<close> are disabled while
  \<open>loading\<close>, those of the editor while an edit runs.  \<open>ClickEditPhoto i\<close> is the button of
  the \<open>i\<close>-th card; the editor keeps its state when it is already mounted.
\<close>

fun step :: "(nat \<Rightarrow> jsstring) \<Rightarrow> Event \<Rightarrow> UI \<Rightarrow> UI" where
  "step uuidv4 (ChangeMenuText t) u =
     (if loading (app u) then u else u\<lparr>app := (app u)\<lparr>menuText := t\<rparr>\<rparr>)"
| "step uuidv4 (SelectStyle s) u =
     (if loading (app u) then u else u\<lparr>app := (app u)\<lparr>selectedStyle := s\<rparr>\<rparr>)"
| "step uuidv4 (ClickGenerate env) u =
     (if loading (app u) then u
      else (case handleGenerateImages uuidv4 env (uuid_draws u) (app u) of
              (st, draws, _) \<Rightarrow> u\<lparr>app := st, uuid_draws := draws\<rparr>))"
| "step uuidv4 (ClickEditPhoto i) u =
     (case arr_get (generatedImages (app u)) i of
        None \<Rightarrow> u
      | Some img \<Rightarrow>
          u\<lparr>app := handleEditImage img (app u),
            modal := (case modal u of
                        None \<Rightarrow> Some (mountModal img)
                      | Some m \<Rightarrow> Some m)\<rparr>)"
| "step uuidv4 (ChangeEditPrompt p) u =
     (case modal u of
        None \<Rightarrow> u
      | Some m \<Rightarrow>
          if modal_editingImage m then u else u\<lparr>modal := Some (m\<lparr>editPrompt := p\<rparr>)\<rparr>)"
| "step uuidv4 (ClickApplyEdit env) u =
     (case (editingImage (app u), modal u) of
        (Some img, Some m) \<Rightarrow>
          if modal_editingImage m then u
          else (case handleEdit env img m of
                  (m', None, _) \<Rightarrow> u\<lparr>modal := Some m'\<rparr>
                | (m', Some updatedImage, _) \<Rightarrow>
                    u\<lparr>app := handleImageEdited updatedImage (app u), modal := Some m'\<rparr>)
      | _ \<Rightarrow> u)"
| "step uuidv4 ClickClose u =
     (case modal u of
        None \<Rightarrow> u
      | Some m \<Rightarrow>
          if modal_editingImage m then u
          else u\<lparr>app := closeEditorModal (app u), modal := None\<rparr>)"

definition run :: "(nat \<Rightarrow> jsstring) \<Rightarrow> Event list \<Rightarrow> UI \<Rightarrow> UI" where
  "run uuidv4 events u = fold (step uuidv4) events u"

section \<open>Notions used to state the properties\<close>

text \<open>
  Among the calls of a batch that settle in the order \<open>ord\<close>: the failed call that settles
  last, and the number of successful calls that settle before call \<open>i\<close>.
\<close>

definition lastFailure :: "(nat \<Rightarrow> jsstring + jsstring) \<Rightarrow> nat list \<Rightarrow> nat option" where
  "lastFailure outcome ord =
     (case filter (\<lambda>i. isl (outcome i)) ord of [] \<Rightarrow> None | fs \<Rightarrow> Some (last fs))"

definition rank :: "(nat \<Rightarrow> jsstring + jsstring) \<Rightarrow> nat list \<Rightarrow> nat \<Rightarrow> nat" where
  "rank outcome ord i = length (filter (\<lambda>j. \<not> isl (outcome j)) (takeWhile (\<lambda>j. j \<noteq> i) ord))"

text \<open>
  The images the interface holds: those of the session and the one being edited.
\<close>

definition images :: "UI \<Rightarrow> GeneratedImage set" where
  "images u = set (generatedImages (app u)) \<union> set_option (editingImage (app u))"

text \<open>A data URL whose media type, as the editor extracts it, is \<^verbatim>\<open>image/jpeg\<close>.\<close>

definition jpegUrl :: "jsstring \<Rightarrow> bool" where
  "jpegUrl url = (extractMimeType url = Some (str ''image/jpeg''))"

text \<open>
  Every data URL of the interface is a JPEG one: the current URL and the history of every
  image, and the editor's current URL.
\<close>

definition allJpeg :: "UI \<Rightarrow> bool" where
  "allJpeg u =
     ((\<forall>g \<in> images u.
         jpegUrl (imageUrl g) \<and> (\<forall>h \<in> set (editHistory g). jpegUrl (edit_imageUrl h))) \<and>
      (\<forall>m \<in> set_option (modal u). jpegUrl (currentEditedImageUrl m)))"

text \<open>
  An image \<open>g\<close> is tracked in a state when its id was drawn from the generator, and every
  image the state holds has a drawn id and, if it has the id of \<open>g\<close>, also the dish name
  and the original prompt of \<open>g\<close>.
\<close>

definition drawn :: "(nat \<Rightarrow> jsstring) \<Rightarrow> UI \<Rightarrow> GeneratedImage \<Rightarrow> bool" where
  "drawn uuidv4 u g = (\<exists>k < uuid_draws u. id_field g = uuidv4 k)"

definition tracked :: "(nat \<Rightarrow> jsstring) \<Rightarrow> GeneratedImage \<Rightarrow> UI \<Rightarrow> bool" where
  "tracked uuidv4 g u =
     (drawn uuidv4 u g \<and>
      (\<forall>g' \<in> images u.
         drawn uuidv4 u g' \<and>
         (id_field g' = id_field g \<longrightarrow>
            dishName g' = dishName g \<and> originalPrompt g' = originalPrompt g)))"

section \<open>Sample inputs\<close>

definition sampleImage :: GeneratedImage where
  "sampleImage =
     \<lparr>id_field = str ''id-1'', dishName = str ''Soup'',
      imageUrl = dataUrl (str ''image/jpeg'') (str ''AAAA''),
      originalPrompt = str ''Soup'', editHistory = []\<rparr>"

text \<open>A response whose first candidate has a text part and then one image part.\<close>

definition imageResponse :: "jsstring \<Rightarrow> jsstring \<Rightarrow> GenerateContentResponse" where
  "imageResponse mimeType d =
     \<lparr>candidates = Some [\<lparr>content = Some \<lparr>parts = Some
        [\<lparr>inlineData = None\<rparr>,
         \<lparr>inlineData = Some \<lparr>blob_data = Some d, blob_mimeType = Some mimeType\<rparr>\<rparr>]\<rparr>\<rparr>]\<rparr>"

text \<open>An editing service that answers with a PNG whose data is the input's followed by \<open>B\<close>.\<close>

definition pngEditEnv :: EditEnv where
  "pngEditEnv =
     \<lparr>edit_API_KEY = Some (str ''key''),
      generateContent =
        (\<lambda>request. Inr (imageResponse (str ''image/png'') (gc_data request @ str ''B'')))\<rparr>"

text \<open>An editing service that answers with a text part only.\<close>

definition textOnlyEditEnv :: EditEnv where
  "textOnlyEditEnv =
     \<lparr>edit_API_KEY = Some (str ''key''),
      generateContent =
        (\<lambda>request. Inr \<lparr>candidates = Some [\<lparr>content = Some \<lparr>parts = Some
           [\<lparr>inlineData = None\<rparr>]\<rparr>\<rparr>]\<rparr>)\<rparr>"

text \<open>An id generator that never repeats, a menu of three dishes with a blank line, a
  service that fails for the second dish only and answers it first, and a service that
  fails for every dish.\<close>

definition sampleUuid :: "nat \<Rightarrow> jsstring" where
  "sampleUuid k = replicate (Suc k) 0x75"

definition sampleMenu :: jsstring where
  "sampleMenu = str ''Soup'' @ [newline] @ str ''  Taco '' @ [newline, newline] @ str ''Cake''"

definition sampleGenEnv :: GenEnv where
  "sampleGenEnv =
     \<lparr>gen_API_KEY = Some (str ''key''),
      generateImages =
        (\<lambda>i request. if i = 1 then Inl (str ''quota'')
                      else Inr (Some [if i = 0 then str ''AAAA'' else str ''CCCC''])),
      latency = (\<lambda>i. if i = 0 then 2 else if i = 1 then 0 else 1)\<rparr>"

definition failingGenEnv :: GenEnv where
  "failingGenEnv =
     \<lparr>gen_API_KEY = Some (str ''key''),
      generateImages = (\<lambda>i request. Inl (str ''quota'')),
      latency = (\<lambda>i. 0)\<rparr>"

text \<open>A session of the interface: a menu is entered, the batch runs, the first card is
  opened in the editor and one edit is applied.\<close>

definition sampleEvents :: "Event list" where
  "sampleEvents =
     [ChangeMenuText sampleMenu, ClickGenerate sampleGenEnv, ClickEditPhoto 0,
      ChangeEditPrompt (str ''make it brighter''), ClickApplyEdit pngEditEnv]"


section \<open>Splitting and trimming\<close>

lemma split_on_not_Nil: "split_on sep xs \<noteq> []"
  by (induction xs) (auto split: list.splits)

lemma split_on_no_sep: "sep \<notin> set h \<Longrightarrow> split_on sep h = [h]"
  by (induction h) auto

lemma split_on_append: "sep \<notin> set h \<Longrightarrow> split_on sep (h @ sep # t) = h # split_on sep t"
  by (induction h) auto

lemma set_split_on: "\<Union> (set ` set (split_on sep xs)) = set xs - {sep}"
proof (induction xs)
  case Nil
  show ?case by simp
next
  case (Cons x xs)
  show ?case
  proof (cases "x = sep")
    case True
    with Cons show ?thesis by auto
  next
    case False
    obtain y ys where r: "split_on sep xs = y # ys"
      using split_on_not_Nil [of sep xs] by (cases "split_on sep xs") auto
    with Cons False show ?thesis by auto
  qed
qed

lemma trim_Nil_iff: "trim s = [] \<longleftrightarrow> (\<forall>c \<in> set s. is_ws c)"
proof
  assume "trim s = []"
  then have "dropWhile is_ws (rev (dropWhile is_ws s)) = []" by (simp add: trim_def)
  then have "\<forall>c \<in> set (dropWhile is_ws s). is_ws c" by (simp add: dropWhile_eq_Nil_conv)
  then have "dropWhile is_ws s = []"
    by (metis dropWhile_eq_Nil_conv hd_dropWhile hd_in_set)
  then show "\<forall>c \<in> set s. is_ws c" by (simp add: dropWhile_eq_Nil_conv)
next
  assume "\<forall>c \<in> set s. is_ws c"
  then show "trim s = []" by (auto simp: trim_def dest: set_dropWhileD)
qed

section \<open>Batch generation: empty input\<close>

lemma is_ws_newline: "is_ws newline"
  by (simp add: is_ws_def newline_def whitespace_units_def)

lemma dishes_of_Nil_iff: "dishes_of t = [] \<longleftrightarrow> (\<forall>c \<in> set t. is_ws c)"
proof -
  have "dishes_of t = [] \<longleftrightarrow> (\<forall>l \<in> set (split_on newline t). trim l = [])"
    by (auto simp: dishes_of_def filter_empty_conv)
  also have "\<dots> \<longleftrightarrow> (\<forall>c \<in> \<Union> (set ` set (split_on newline t)). is_ws c)"
    by (auto simp: trim_Nil_iff)
  also have "\<dots> \<longleftrightarrow> (\<forall>c \<in> set t. is_ws c)"
    unfolding set_split_on using is_ws_newline by auto
  finally show ?thesis .
qed

text \<open>
  C8.  When the menu text is empty or consists of whitespace only, which is exactly when
  it has no non-empty trimmed line, the handler sets the error \<^verbatim>\<open>Please enter your menu items.\<close>
  and returns at once: no call of \<open>generateFoodImage\<close> is made, no request reaches the
  remote service, no id is drawn and the rest of the state is as before.
\<close>

theorem empty_menu_rejected:
  assumes "\<forall>c \<in> set (menuText st). is_ws c"
  shows "dishes_of (menuText st) = [] \<and>
         handleGenerateImages uuidv4 env draws st =
           (st\<lparr>error := Some (str ''Please enter your menu items.'')\<rparr>, draws, [], [])"
  using assms by (simp add: dishes_of_Nil_iff handleGenerateImages_def trim_Nil_iff)


theorem empty_menu_rejected_witness:
  "dishes_of (menuText (initialApp\<lparr>menuText := [0x20, 0x0A, 0x09, 0x2028]\<rparr>)) = [] \<and>
   handleGenerateImages (\<lambda>k. replicate k 0x75)
       \<lparr>gen_API_KEY = Some (str ''key''),
        generateImages = (\<lambda>i request. Inr (Some [str ''AAAA''])),
        latency = (\<lambda>i. 0)\<rparr> 7
       (initialApp\<lparr>menuText := [0x20, 0x0A, 0x09, 0x2028]\<rparr>) =
     (initialApp\<lparr>menuText := [0x20, 0x0A, 0x09, 0x2028],
                 error := Some (str ''Please enter your menu items.'')\<rparr>, 7, [], [])"
proof -
  have ws: "\<forall>c \<in> set (menuText (initialApp\<lparr>menuText := [0x20, 0x0A, 0x09, 0x2028]\<rparr>)). is_ws c"
    by (simp add: is_ws_def whitespace_units_def)
  show ?thesis
    using ws empty_menu_rejected [OF ws] by simp
qed

section \<open>Data URLs\<close>

lemma split_on_piece: "p \<in> set (split_on sep xs) \<Longrightarrow> sep \<notin> set p \<and> set p \<subseteq> set xs"
  using set_split_on [of sep xs] by blast

lemma arr_get_in_set: "arr_get xs i = Some x \<Longrightarrow> x \<in> set xs"
  by (auto simp: arr_get_def split: if_splits)

lemma extractMimeType_chars:
  assumes "extractMimeType url = Some t"
  shows "semicolon \<notin> set t \<and> colon \<notin> set t \<and> set t \<subseteq> set url"
proof -
  from assms obtain header where h: "arr_get (split_on semicolon url) 0 = Some header"
    and t: "arr_get (split_on colon header) 1 = Some t"
    by (auto simp: extractMimeType_def split: option.splits)
  from h have "semicolon \<notin> set header \<and> set header \<subseteq> set url"
    by (intro split_on_piece arr_get_in_set)
  moreover from t have "colon \<notin> set t \<and> set t \<subseteq> set header"
    by (intro split_on_piece arr_get_in_set)
  ultimately show ?thesis by auto
qed

lemma dataUrl_split_semicolon:
  "dataUrl t b = (str ''data:'' @ t) @ semicolon # (str ''base64,'' @ b)"
  by (simp add: dataUrl_def str_def semicolon_def)

lemma dataUrl_split_comma:
  "dataUrl t b = (str ''data:'' @ t @ str '';base64'') @ comma # b"
  by (simp add: dataUrl_def str_def comma_def)

lemma extractMimeType_dataUrl:
  assumes "semicolon \<notin> set t" "colon \<notin> set t"
  shows "extractMimeType (dataUrl t b) = Some t"
proof -
  have "semicolon \<notin> set (str ''data:'' @ t)"
    using assms by (simp add: str_def semicolon_def)
  then have "split_on semicolon (dataUrl t b) =
      (str ''data:'' @ t) # split_on semicolon (str ''base64,'' @ b)"
    unfolding dataUrl_split_semicolon by (rule split_on_append)
  then have h: "arr_get (split_on semicolon (dataUrl t b)) 0 = Some (str ''data:'' @ t)"
    by (simp add: arr_get_def)
  have "str ''data:'' @ t = str ''data'' @ colon # t"
    by (simp add: str_def colon_def)
  moreover have "colon \<notin> set (str ''data'')"
    by (simp add: str_def colon_def)
  ultimately have "split_on colon (str ''data:'' @ t) = [str ''data'', t]"
    using assms by (simp add: split_on_append split_on_no_sep)
  with h show ?thesis by (simp add: extractMimeType_def arr_get_def)
qed

lemma extractBase64Data_dataUrl:
  assumes "comma \<notin> set t" "comma \<notin> set b"
  shows "extractBase64Data (dataUrl t b) = Some b"
proof -
  have "comma \<notin> set (str ''data:'' @ t @ str '';base64'')"
    using assms by (simp add: str_def comma_def)
  then have "split_on comma (dataUrl t b) = (str ''data:'' @ t @ str '';base64'') # split_on comma b"
    unfolding dataUrl_split_comma by (rule split_on_append)
  with assms show ?thesis
    by (simp add: extractBase64Data_def arr_get_def split_on_no_sep)
qed

lemma decodeDataUrl_dataUrl:
  assumes "p \<noteq> []" and "comma \<notin> set p"
      and "m \<noteq> []" and "comma \<notin> set m" and "semicolon \<notin> set m" and "colon \<notin> set m"
  shows "decodeDataUrl (dataUrl m p) = Some (p, m)"
  using assms by (simp add: decodeDataUrl_def extractBase64Data_dataUrl extractMimeType_dataUrl)

text \<open>
  C6.  Decoding what was encoded gives the payload and the media type back.  The code
  encodes with the template \<^verbatim>\<open>data:${mimeType};base64,${data}\<close> and decodes by splitting at
  \<^verbatim>\<open>,\<close>, \<^verbatim>\<open>;\<close> and \<^verbatim>\<open>:\<close>, so the valid pairs are: a payload that is not empty and has
  no comma (any base64 text), and a media type that is not empty and has none of the three
  separators (any \<^verbatim>\<open>type/subtype\<close>).
\<close>

theorem data_url_round_trip:
  assumes "p \<noteq> []" and "comma \<notin> set p"
      and "m \<noteq> []" and "comma \<notin> set m" and "semicolon \<notin> set m" and "colon \<notin> set m"
  shows "decodeDataUrl (dataUrl m p) = Some (p, m)"
  using assms by (rule decodeDataUrl_dataUrl)

text \<open>Outside these pairs the decoder differs: an empty payload is refused, and the
  parameters of a media type are cut off.\<close>

lemma decode_empty_payload: "decodeDataUrl (dataUrl (str ''image/jpeg'') []) = None"
  by (simp add: decodeDataUrl_def extractBase64Data_def extractMimeType_def dataUrl_def str_def arr_get_def comma_def semicolon_def colon_def)

lemma decode_parameterised: "decodeDataUrl (dataUrl (str ''image/png;q=1'') (str ''AAAA'')) = Some (str ''AAAA'', str ''image/png'')"
  by (simp add: decodeDataUrl_def extractBase64Data_def extractMimeType_def dataUrl_def str_def arr_get_def comma_def semicolon_def colon_def)

theorem data_url_round_trip_witness:
  "decodeDataUrl (dataUrl (str ''image/jpeg'') (str ''/9j/4AAQ+Zg=='')) =
     Some (str ''/9j/4AAQ+Zg=='', str ''image/jpeg'')"
  using data_url_round_trip [of "str ''/9j/4AAQ+Zg==''" "str ''image/jpeg''"]
  by (simp add: str_def comma_def semicolon_def colon_def)


section \<open>Editing\<close>

text \<open>
  C9.  When the edit prompt is empty or consists of whitespace only, the handler sets the
  error \<^verbatim>\<open>Please enter an edit prompt.\<close> and returns at once: \<^verbatim>\<open>onImageEdited\<close> is not
  called, no request is sent, and in the interface nothing but the editor's error changes,
  so the image and the session are as before.
\<close>

theorem empty_prompt_rejected:
  assumes "\<forall>c \<in> set (editPrompt m). is_ws c"
  shows "handleEdit env img m =
           (m\<lparr>modal_error := Some (str ''Please enter an edit prompt.'')\<rparr>, None, []) \<and>
         (editingImage (app u) = Some img \<and> modal u = Some m \<and> \<not> modal_editingImage m \<longrightarrow>
            step uuidv4 (ClickApplyEdit env) u =
              u\<lparr>modal := Some (m\<lparr>modal_error := Some (str ''Please enter an edit prompt.'')\<rparr>)\<rparr>)"
  using assms by (simp add: handleEdit_def trim_Nil_iff)

theorem empty_prompt_rejected_witness:
  "handleEdit pngEditEnv sampleImage
       ((mountModal sampleImage)\<lparr>editPrompt := [0x20, 0x09, 0x0A, 0x00A0]\<rparr>) =
     ((mountModal sampleImage)
        \<lparr>editPrompt := [0x20, 0x09, 0x0A, 0x00A0],
         modal_error := Some (str ''Please enter an edit prompt.'')\<rparr>, None, [])"
proof -
  have ws: "\<forall>c \<in> set (editPrompt ((mountModal sampleImage)
      \<lparr>editPrompt := [0x20, 0x09, 0x0A, 0x00A0]\<rparr>)). is_ws c"
    by (simp add: is_ws_def whitespace_units_def)
  from empty_prompt_rejected [OF ws, of pngEditEnv sampleImage]
  show ?thesis by simp
qed

lemma handleEdit_failure:
  assumes "trim (editPrompt m) \<noteq> []"
      and "decodeDataUrl (currentEditedImageUrl m) = Some (b, t)"
      and "editFoodImage (edit_API_KEY env) (generateContent env) b t (editPrompt m) =
             (Inl reason, requests)"
  shows "handleEdit env img m =
           (m\<lparr>modal_editingImage := False, modal_error := Some (editFailure reason)\<rparr>,
            None, requests)"
  using assms by (simp add: handleEdit_def)



lemma decodeDataUrl_Some:
  assumes "decodeDataUrl url = Some (b, t)"
  shows "b \<noteq> [] \<and> t \<noteq> [] \<and> semicolon \<notin> set t \<and> colon \<notin> set t \<and> comma \<notin> set b"
proof -
  from assms have b: "extractBase64Data url = Some b" and t: "extractMimeType url = Some t"
    and ne: "b \<noteq> []" "t \<noteq> []"
    by (auto simp: decodeDataUrl_def split: option.splits if_splits)
  from b have "comma \<notin> set b"
    unfolding extractBase64Data_def by (intro split_on_piece [THEN conjunct1] arr_get_in_set)
  with ne extractMimeType_chars [OF t] show ?thesis by simp
qed


lemmas eval_defs =
  str_def trim_def is_ws_def whitespace_units_def arr_get_def
  comma_def semicolon_def colon_def newline_def
  dataUrl_def decodeDataUrl_def extractBase64Data_def extractMimeType_def
  editFoodImage_def editedImagePart_def response_parts_def is_image_part_def startsWith_def
  editFailure_def

text \<open>
  C4.  When the prompt is not blank, the current data URL decodes and \<open>editFoodImage\<close>
  throws (the key is missing, the service fails, or its answer has no usable image part),
  the handler ends with the editor's error set to \<^verbatim>\<open>Failed to edit image: \<close> followed by
  the thrown message.  \<^verbatim>\<open>onImageEdited\<close> is not called: in the interface the state of \<open>App\<close>
  (the session and the image being edited, with its history) is unchanged, and so are the
  editor's current data URL and prompt.
\<close>

theorem edit_failure_keeps_image:
  assumes "trim (editPrompt m) \<noteq> []"
      and "decodeDataUrl (currentEditedImageUrl m) = Some (b, t)"
      and "editFoodImage (edit_API_KEY env) (generateContent env) b t (editPrompt m) =
             (Inl reason, requests)"
  shows "handleEdit env img m =
           (m\<lparr>modal_editingImage := False, modal_error := Some (editFailure reason)\<rparr>,
            None, requests) \<and>
         (editingImage (app u) = Some img \<and> modal u = Some m \<and> \<not> modal_editingImage m \<longrightarrow>
            step uuidv4 (ClickApplyEdit env) u =
              u\<lparr>modal := Some (m\<lparr>modal_editingImage := False,
                                   modal_error := Some (editFailure reason)\<rparr>)\<rparr>)"
  using handleEdit_failure [OF assms] by simp

theorem edit_failure_keeps_image_witness:
  "handleEdit textOnlyEditEnv sampleImage
       ((mountModal sampleImage)\<lparr>editPrompt := str ''add steam''\<rparr>) =
     ((mountModal sampleImage)
        \<lparr>editPrompt := str ''add steam'', modal_editingImage := False,
         modal_error := Some (str ''Failed to edit image: Failed to edit image: No edited image returned by the model.'')\<rparr>,
      None,
      [\<lparr>gc_model = str ''gemini-2.5-flash-image'', gc_data = str ''AAAA'',
        gc_mimeType = str ''image/jpeg'', gc_text = str ''add steam''\<rparr>])"
  using edit_failure_keeps_image
    [of "(mountModal sampleImage)\<lparr>editPrompt := str ''add steam''\<rparr>"
        "str ''AAAA''" "str ''image/jpeg''" textOnlyEditEnv
        "str ''Failed to edit image: No edited image returned by the model.''"
        "[\<lparr>gc_model = str ''gemini-2.5-flash-image'', gc_data = str ''AAAA'',
           gc_mimeType = str ''image/jpeg'', gc_text = str ''add steam''\<rparr>]"
        sampleImage]
  by (simp add: eval_defs mountModal_def sampleImage_def textOnlyEditEnv_def)












section \<open>Batch generation: settling the calls\<close>

lemma settle_Inl:
  "outcome j = Inl message \<Longrightarrow>
   settle uuidv4 dishes outcome j (e, c, res) =
     (Some (generateErrorMessage (dishes ! j)), c, res[j := None])"
  by (simp add: settle_def)

lemma settle_Inr:
  "outcome j = Inr b \<Longrightarrow>
   settle uuidv4 dishes outcome j (e, c, res) =
     (e, Suc c, res[j := Some (newImage (uuidv4 c) (dishes ! j) b)])"
  by (simp add: settle_def)

lemma fold_settle_error:
  "fst (fold (settle uuidv4 dishes outcome) ord (e, c, res)) =
     (case lastFailure outcome ord of
        None \<Rightarrow> e
      | Some i \<Rightarrow> Some (generateErrorMessage (dishes ! i)))"
proof (induction ord arbitrary: e c res)
  case Nil
  show ?case by (simp add: lastFailure_def)
next
  case (Cons j ord)
  show ?case
  proof (cases "outcome j")
    case (Inl message)
    then show ?thesis
      using Cons [of "Some (generateErrorMessage (dishes ! j))" c "res[j := None]"]
      by (auto simp: settle_Inl lastFailure_def split: list.splits)
  next
    case (Inr b)
    then show ?thesis
      using Cons [of e "Suc c" "res[j := Some (newImage (uuidv4 c) (dishes ! j) b)]"]
      by (auto simp: settle_Inr lastFailure_def split: list.splits)
  qed
qed

lemma fold_settle_draws:
  "fst (snd (fold (settle uuidv4 dishes outcome) ord (e, c, res))) =
     c + length (filter (\<lambda>i. \<not> isl (outcome i)) ord)"
proof (induction ord arbitrary: e c res)
  case Nil
  show ?case by simp
next
  case (Cons j ord)
  show ?case
    by (cases "outcome j") (simp_all add: settle_Inl settle_Inr Cons)
qed

lemma fold_settle_length:
  "length (snd (snd (fold (settle uuidv4 dishes outcome) ord (e, c, res)))) = length res"
proof (induction ord arbitrary: e c res)
  case Nil
  show ?case by simp
next
  case (Cons j ord)
  show ?case
    by (cases "outcome j") (simp_all add: settle_Inl settle_Inr Cons)
qed

lemma fold_settle_nth:
  assumes "distinct ord" and "\<forall>j \<in> set ord. j < length res" and "i < length res"
  shows "snd (snd (fold (settle uuidv4 dishes outcome) ord (e, c, res))) ! i =
     (if i \<in> set ord then
        (case outcome i of
           Inl _ \<Rightarrow> None
         | Inr b \<Rightarrow> Some (newImage (uuidv4 (c + rank outcome ord i)) (dishes ! i) b))
      else res ! i)"
  using assms
proof (induction ord arbitrary: e c res)
  case Nil
  show ?case by simp
next
  case (Cons j ord)
  from Cons.prems have d: "distinct ord" and j: "j \<notin> set ord" "j < length res"
    and b: "\<forall>k \<in> set ord. k < length res" by simp_all
  show ?case
  proof (cases "outcome j")
    case (Inl message)
    have step: "settle uuidv4 dishes outcome j (e, c, res) =
        (Some (generateErrorMessage (dishes ! j)), c, res[j := None])"
      using Inl by (rule settle_Inl)
    have "snd (snd (fold (settle uuidv4 dishes outcome) ord
            (Some (generateErrorMessage (dishes ! j)), c, res[j := None]))) ! i =
          (if i \<in> set ord then
             (case outcome i of
                Inl _ \<Rightarrow> None
              | Inr b \<Rightarrow> Some (newImage (uuidv4 (c + rank outcome ord i)) (dishes ! i) b))
           else res[j := None] ! i)"
      using d b Cons.prems(3) by (intro Cons.IH) simp_all
    then show ?thesis
      using Inl j Cons.prems(3) step by (auto simp: rank_def split: sum.splits)
  next
    case (Inr img)
    have step: "settle uuidv4 dishes outcome j (e, c, res) =
        (e, Suc c, res[j := Some (newImage (uuidv4 c) (dishes ! j) img)])"
      using Inr by (rule settle_Inr)
    have "snd (snd (fold (settle uuidv4 dishes outcome) ord
            (e, Suc c, res[j := Some (newImage (uuidv4 c) (dishes ! j) img)]))) ! i =
          (if i \<in> set ord then
             (case outcome i of
                Inl _ \<Rightarrow> None
              | Inr b \<Rightarrow> Some (newImage (uuidv4 (Suc c + rank outcome ord i)) (dishes ! i) b))
           else res[j := Some (newImage (uuidv4 c) (dishes ! j) img)] ! i)"
      using d b Cons.prems(3) by (intro Cons.IH) simp_all
    then show ?thesis
      using Inr j Cons.prems(3) step by (auto simp: rank_def split: sum.splits)
  qed
qed


lemma settle_order_perm:
  "distinct (settle_order lat n) \<and> set (settle_order lat n) = {0..<n}"
  by (simp add: settle_order_def)

lemma settle_order_filter_length:
  "length (filter P (settle_order lat n)) = length (filter P [0..<n])"
  by (simp add: settle_order_def filter_sort)

lemma fold_settle_results:
  fixes outcome :: "nat \<Rightarrow> jsstring + jsstring"
  shows "snd (snd (fold (settle uuidv4 dishes outcome) (settle_order lat n)
                 (e, c, replicate n None))) =
     map (\<lambda>i. case outcome i of
                 Inl _ \<Rightarrow> None
               | Inr b \<Rightarrow>
                   Some (newImage (uuidv4 (c + rank outcome (settle_order lat n) i))
                           (dishes ! i) b))
       [0..<n]"
proof (rule nth_equalityI)
  show "length (snd (snd (fold (settle uuidv4 dishes outcome) (settle_order lat n)
      (e, c, replicate n None)))) =
    length (map (\<lambda>i. case outcome i of
                 Inl _ \<Rightarrow> None
               | Inr b \<Rightarrow>
                   Some (newImage (uuidv4 (c + rank outcome (settle_order lat n) i))
                           (dishes ! i) b))
       [0..<n])"
    by (simp add: fold_settle_length)
next
  fix i
  assume "i < length (snd (snd (fold (settle uuidv4 dishes outcome) (settle_order lat n)
      (e, c, replicate n None))))"
  then have i: "i < n" by (simp add: fold_settle_length)
  have "snd (snd (fold (settle uuidv4 dishes outcome) (settle_order lat n)
            (e, c, replicate n None))) ! i =
        (if i \<in> set (settle_order lat n) then
           (case outcome i of
              Inl _ \<Rightarrow> None
            | Inr b \<Rightarrow>
                Some (newImage (uuidv4 (c + rank outcome (settle_order lat n) i))
                        (dishes ! i) b))
         else replicate n None ! i)"
    using i by (intro fold_settle_nth) (simp_all add: settle_order_perm)
  with i show "snd (snd (fold (settle uuidv4 dishes outcome) (settle_order lat n)
            (e, c, replicate n None))) ! i =
     map (\<lambda>i. case outcome i of
                 Inl _ \<Rightarrow> None
               | Inr b \<Rightarrow>
                   Some (newImage (uuidv4 (c + rank outcome (settle_order lat n) i))
                           (dishes ! i) b))
       [0..<n] ! i"
    by (simp add: settle_order_perm split: sum.splits)
qed

lemma map_filter_map: "List.map_filter g (map f xs) = List.map_filter (\<lambda>x. g (f x)) xs"
  by (induction xs) (simp_all add: List.map_filter_simps split: option.splits)

lemma handleGenerateImages_run:
  assumes "trim (menuText st) \<noteq> []"
  shows "handleGenerateImages uuidv4 env draws st =
     (st\<lparr>loading := False,
         error :=
           (case lastFailure (batchOutcome env (selectedStyle st) (dishes_of (menuText st)))
                   (settle_order (latency env) (length (dishes_of (menuText st)))) of
              None \<Rightarrow> None
            | Some i \<Rightarrow> Some (generateErrorMessage (dishes_of (menuText st) ! i))),
         generatedImages :=
           List.map_filter
             (\<lambda>i. case batchOutcome env (selectedStyle st) (dishes_of (menuText st)) i of
                     Inl _ \<Rightarrow> None
                   | Inr b \<Rightarrow>
                       Some (newImage
                               (uuidv4 (draws +
                                  rank (batchOutcome env (selectedStyle st) (dishes_of (menuText st)))
                                    (settle_order (latency env) (length (dishes_of (menuText st)))) i))
                               (dishes_of (menuText st) ! i) b))
             [0..<length (dishes_of (menuText st))]\<rparr>,
      draws + length (filter
                 (\<lambda>i. \<not> isl (batchOutcome env (selectedStyle st) (dishes_of (menuText st)) i))
                 [0..<length (dishes_of (menuText st))]),
      map (\<lambda>dish. (dish, selectedStyle st)) (dishes_of (menuText st)),
      concat (map (\<lambda>i. snd (batchCall env (selectedStyle st) (dishes_of (menuText st)) i))
                [0..<length (dishes_of (menuText st))]))"
  using assms
  by (simp add: handleGenerateImages_def Let_def fold_settle_error fold_settle_draws
        fold_settle_results settle_order_filter_length map_filter_map
      cong: option.case_cong)


lemma map_filter_sum:
  fixes outcome :: "nat \<Rightarrow> 'e + 'b"
  shows "List.map_filter (\<lambda>i. case outcome i of Inl _ \<Rightarrow> None | Inr b \<Rightarrow> Some (h i b)) xs =
         map (\<lambda>i. h i (projr (outcome i))) (filter (\<lambda>i. \<not> isl (outcome i)) xs)"
  by (induction xs) (auto simp: List.map_filter_simps split: sum.splits)

lemma rank_nth:
  assumes "i \<in> set ord" and "\<not> isl (outcome i)"
  shows "rank outcome ord i < length (filter (\<lambda>j. \<not> isl (outcome j)) ord) \<and>
         filter (\<lambda>j. \<not> isl (outcome j)) ord ! rank outcome ord i = i"
  using assms by (induction ord) (auto simp: rank_def)

lemma rank_inj:
  assumes "i \<in> set ord" and "\<not> isl (outcome i)"
      and "j \<in> set ord" and "\<not> isl (outcome j)"
      and "rank outcome ord i = rank outcome ord j"
  shows "i = j"
proof -
  have a: "filter (\<lambda>k. \<not> isl (outcome k)) ord ! rank outcome ord i = i"
    using rank_nth [of i ord outcome] assms(1,2) by blast
  have b: "filter (\<lambda>k. \<not> isl (outcome k)) ord ! rank outcome ord j = j"
    using rank_nth [of j ord outcome] assms(3,4) by blast
  from a [symmetric] have "i = filter (\<lambda>k. \<not> isl (outcome k)) ord ! rank outcome ord i" .
  also have "\<dots> = filter (\<lambda>k. \<not> isl (outcome k)) ord ! rank outcome ord j"
    by (rule arg_cong [OF assms(5)])
  also note b
  finally show ?thesis .
qed

lemma rank_settle_order_less:
  assumes "i < n" and "\<not> isl (outcome i)"
  shows "rank outcome (settle_order lat n) i < length (filter (\<lambda>j. \<not> isl (outcome j)) [0..<n])"
proof -
  have "i \<in> set (settle_order lat n)" using assms(1) by (simp add: settle_order_perm)
  with rank_nth [of i "settle_order lat n" outcome] assms(2) show ?thesis
    by (simp add: settle_order_filter_length)
qed

lemma handleGenerateImages_session:
  assumes "trim (menuText st) \<noteq> []"
  shows "generatedImages (fst (handleGenerateImages uuidv4 env draws st)) =
     map (\<lambda>i. newImage
                 (uuidv4 (draws +
                    rank (batchOutcome env (selectedStyle st) (dishes_of (menuText st)))
                      (settle_order (latency env) (length (dishes_of (menuText st)))) i))
                 (dishes_of (menuText st) ! i)
                 (projr (batchOutcome env (selectedStyle st) (dishes_of (menuText st)) i)))
       (filter (\<lambda>i. \<not> isl (batchOutcome env (selectedStyle st) (dishes_of (menuText st)) i))
          [0..<length (dishes_of (menuText st))])"
  by (simp add: handleGenerateImages_run [OF assms] map_filter_sum)

lemma session_ids_distinct:
  assumes "inj uuidv4"
  shows "distinct (map (\<lambda>i. uuidv4 (draws + rank outcome (settle_order lat n) i))
                    (filter (\<lambda>i. \<not> isl (outcome i)) [0..<n]))"
proof -
  have "inj_on (\<lambda>i. uuidv4 (draws + rank outcome (settle_order lat n) i))
          (set (filter (\<lambda>i. \<not> isl (outcome i)) [0..<n]))"
  proof (rule inj_onI)
    fix i j
    assume i: "i \<in> set (filter (\<lambda>i. \<not> isl (outcome i)) [0..<n])"
      and j: "j \<in> set (filter (\<lambda>i. \<not> isl (outcome i)) [0..<n])"
      and eq: "uuidv4 (draws + rank outcome (settle_order lat n) i) =
               uuidv4 (draws + rank outcome (settle_order lat n) j)"
    from eq assms have "rank outcome (settle_order lat n) i = rank outcome (settle_order lat n) j"
      by (auto dest: injD)
    moreover from i j have "i \<in> set (settle_order lat n)" "j \<in> set (settle_order lat n)"
      by (simp_all add: settle_order_perm)
    ultimately show "i = j" using i j by (intro rank_inj [of i _ outcome j]) simp_all
  qed
  then show ?thesis by (simp add: distinct_map)
qed

lemma session_ids_fresh:
  "set (map (\<lambda>i. uuidv4 (draws + rank outcome (settle_order lat n) i))
          (filter (\<lambda>i. \<not> isl (outcome i)) [0..<n]))
   \<subseteq> uuidv4 ` {draws ..< draws + length (filter (\<lambda>i. \<not> isl (outcome i)) [0..<n])}"
  using rank_settle_order_less [of _ n outcome lat] by auto

section \<open>Batch generation: the session, the requests and the errors\<close>

lemma inj_sampleUuid: "inj sampleUuid"
  by (rule injI) (simp add: sampleUuid_def)

lemma sample_dishes: "dishes_of sampleMenu = [str ''Soup'', str ''Taco'', str ''Cake'']"
  by (simp add: dishes_of_def sampleMenu_def str_def newline_def trim_def is_ws_def whitespace_units_def)

lemma sample_trim: "trim sampleMenu \<noteq> []"
  by (simp add: sampleMenu_def str_def newline_def trim_def is_ws_def whitespace_units_def)

lemma sample_order:
  "settle_order (latency sampleGenEnv) (Suc (Suc (Suc 0))) = [Suc 0, Suc (Suc 0), 0]"
  by (simp add: settle_order_def sampleGenEnv_def upt_rec)

lemma sample_calls:
  "batchCall sampleGenEnv style [str ''Soup'', str ''Taco'', str ''Cake''] 0 =
     (Inr (str ''AAAA''), [generateRequest style (str ''Soup'')])"
  "batchCall sampleGenEnv style [str ''Soup'', str ''Taco'', str ''Cake''] (Suc 0) =
     (Inl (str ''Failed to generate image: quota''), [generateRequest style (str ''Taco'')])"
  "batchCall sampleGenEnv style [str ''Soup'', str ''Taco'', str ''Cake''] (Suc (Suc 0)) =
     (Inr (str ''CCCC''), [generateRequest style (str ''Cake'')])"
  by (simp_all add: batchCall_def generateFoodImage_def sampleGenEnv_def str_def)

lemma sample_run:
  "handleGenerateImages sampleUuid sampleGenEnv 5 (initialApp\<lparr>menuText := sampleMenu\<rparr>) =
     (initialApp
        \<lparr>menuText := sampleMenu,
         error := Some (generateErrorMessage (str ''Taco'')),
         generatedImages :=
           [newImage (sampleUuid 6) (str ''Soup'') (str ''AAAA''),
            newImage (sampleUuid 5) (str ''Cake'') (str ''CCCC'')]\<rparr>,
      7,
      [(str ''Soup'', BRIGHT_MODERN), (str ''Taco'', BRIGHT_MODERN), (str ''Cake'', BRIGHT_MODERN)],
      [generateRequest BRIGHT_MODERN (str ''Soup''),
       generateRequest BRIGHT_MODERN (str ''Taco''),
       generateRequest BRIGHT_MODERN (str ''Cake'')])"
  using sample_trim
  by (simp add: handleGenerateImages_def Let_def initialApp_def sample_dishes sample_order
        batchOutcome_def sample_calls settle_def List.map_filter_simps upt_rec)


lemma batchOutcome_latency [simp]:
  "batchOutcome (env\<lparr>latency := lat\<rparr>) style dishes = batchOutcome env style dishes"
  by (rule ext) (simp add: batchOutcome_def batchCall_def)

lemma newImage_fields:
  "(dishName (newImage u d b), originalPrompt (newImage u d b), imageUrl (newImage u d b),
    editHistory (newImage u d b)) = (d, d, dataUrl (str ''image/jpeg'') b, [])"
  "id_field (newImage u d b) = u"
  by (simp_all add: newImage_def)

text \<open>
  C1.  When the menu is not blank, the session after the handler is the list of the
  successful dishes in the order of the menu lines: each entry has \<open>dishName\<close> and
  \<open>originalPrompt\<close> equal to the dish, \<open>imageUrl\<close> the JPEG data URL of the returned bytes and
  an empty \<open>editHistory\<close>.  Its ids are pairwise different values of the generator that were
  not drawn before (the generator never repeats).  The list is the same whatever the
  latencies are, so the order in which the calls settle does not show, and whatever the
  session was before, so the old session is replaced even by an empty one.
\<close>

theorem session_in_menu_order:
  assumes "trim (menuText st) \<noteq> []"
      and "inj uuidv4"
      and "handleGenerateImages uuidv4 env draws st = (st', draws', calls, requests)"
  shows "let dishes = dishes_of (menuText st);
             outcome = batchOutcome env (selectedStyle st) dishes;
             succeeded = filter (\<lambda>i. \<not> isl (outcome i)) [0..<length dishes]
         in map (\<lambda>g. (dishName g, originalPrompt g, imageUrl g, editHistory g))
                (generatedImages st') =
              map (\<lambda>i. (dishes ! i, dishes ! i,
                         dataUrl (str ''image/jpeg'') (projr (outcome i)), []))
                succeeded \<and>
            distinct (map id_field (generatedImages st')) \<and>
            set (map id_field (generatedImages st')) \<subseteq> uuidv4 ` {draws..<draws'} \<and>
            draws' = draws + length succeeded \<and>
            \<not> loading st' \<and>
            (\<forall>lat old.
               map (\<lambda>g. (dishName g, originalPrompt g, imageUrl g, editHistory g))
                 (generatedImages (fst (handleGenerateImages uuidv4 (env\<lparr>latency := lat\<rparr>) draws
                    (st\<lparr>generatedImages := old\<rparr>)))) =
               map (\<lambda>g. (dishName g, originalPrompt g, imageUrl g, editHistory g))
                 (generatedImages st'))"
proof -
  let ?dishes = "dishes_of (menuText st)"
  let ?outcome = "batchOutcome env (selectedStyle st) ?dishes"
  let ?succeeded = "filter (\<lambda>i. \<not> isl (?outcome i)) [0..<length ?dishes]"
  let ?proj = "\<lambda>g. (dishName g, originalPrompt g, imageUrl g, editHistory g)"
  let ?row = "\<lambda>i. (?dishes ! i, ?dishes ! i, dataUrl (str ''image/jpeg'') (projr (?outcome i)),
                    [] :: EditRecord list)"
  let ?ident = "\<lambda>i. uuidv4 (draws + rank ?outcome (settle_order (latency env) (length ?dishes)) i)"
  have sess: "generatedImages st' =
      map (\<lambda>i. newImage (?ident i) (?dishes ! i) (projr (?outcome i))) ?succeeded"
    using handleGenerateImages_session [OF assms(1), of uuidv4 env draws] assms(3) by simp
  have dr: "draws' = draws + length ?succeeded" and ld: "\<not> loading st'"
    using handleGenerateImages_run [OF assms(1), of uuidv4 env draws] assms(3) by simp_all
  have proj: "map ?proj (generatedImages st') = map ?row ?succeeded"
    unfolding sess by (simp add: newImage_fields)
  have ids: "map id_field (generatedImages st') = map ?ident ?succeeded"
    unfolding sess by (simp add: newImage_fields)
  have dist: "distinct (map id_field (generatedImages st'))"
    unfolding ids by (rule session_ids_distinct [OF assms(2)])
  have fresh: "set (map id_field (generatedImages st')) \<subseteq> uuidv4 ` {draws..<draws'}"
    unfolding ids dr by (rule session_ids_fresh)
  have indep: "map ?proj (generatedImages (fst (handleGenerateImages uuidv4
        (env\<lparr>latency := lat\<rparr>) draws (st\<lparr>generatedImages := old\<rparr>)))) =
      map ?proj (generatedImages st')" for lat old
  proof -
    have "trim (menuText (st\<lparr>generatedImages := old\<rparr>)) \<noteq> []"
      using assms(1) by simp
    from handleGenerateImages_session [OF this, of uuidv4 "env\<lparr>latency := lat\<rparr>" draws]
    have "map ?proj (generatedImages (fst (handleGenerateImages uuidv4
        (env\<lparr>latency := lat\<rparr>) draws (st\<lparr>generatedImages := old\<rparr>)))) = map ?row ?succeeded"
      by (simp add: newImage_fields)
    with proj show ?thesis by simp
  qed
  show ?thesis
    unfolding Let_def using proj dist fresh dr ld indep by blast
qed


lemma sample_app_trim: "trim (menuText (initialApp\<lparr>menuText := sampleMenu\<rparr>)) \<noteq> []"
  using sample_trim by simp

theorem session_in_menu_order_witness:
  "distinct (map id_field (generatedImages (fst
      (handleGenerateImages sampleUuid sampleGenEnv 5 (initialApp\<lparr>menuText := sampleMenu\<rparr>))))) \<and>
   map (\<lambda>g. (dishName g, originalPrompt g, imageUrl g, editHistory g))
     (generatedImages (fst
        (handleGenerateImages sampleUuid sampleGenEnv 5 (initialApp\<lparr>menuText := sampleMenu\<rparr>)))) =
     [(str ''Soup'', str ''Soup'', str ''data:image/jpeg;base64,AAAA'', []),
      (str ''Cake'', str ''Cake'', str ''data:image/jpeg;base64,CCCC'', [])]"
proof -
  from session_in_menu_order [OF sample_app_trim inj_sampleUuid sample_run]
  have "distinct (map id_field (generatedImages (fst
      (handleGenerateImages sampleUuid sampleGenEnv 5 (initialApp\<lparr>menuText := sampleMenu\<rparr>)))))"
    unfolding Let_def sample_run by simp
  moreover have "map (\<lambda>g. (dishName g, originalPrompt g, imageUrl g, editHistory g))
     (generatedImages (fst
        (handleGenerateImages sampleUuid sampleGenEnv 5 (initialApp\<lparr>menuText := sampleMenu\<rparr>)))) =
     [(str ''Soup'', str ''Soup'', str ''data:image/jpeg;base64,AAAA'', []),
      (str ''Cake'', str ''Cake'', str ''data:image/jpeg;base64,CCCC'', [])]"
    by (simp add: sample_run newImage_def dataUrl_def str_def)
  ultimately show ?thesis ..
qed

lemma generateFoodImage_requests:
  "\<not> falsy key \<Longrightarrow> snd (generateFoodImage key svc p style) = [generateRequest style p]"
  by (simp add: generateFoodImage_def Let_def)

lemma concat_singletons: "concat (map (\<lambda>i. [f i]) xs) = map f xs"
  by (induction xs) simp_all

text \<open>
  C5.  The handler calls \<open>generateFoodImage\<close> once for every trimmed non-empty line, in
  order and with the selected style.  With a key configured each call sends exactly one
  request to the remote service: the style's prefix followed by the dish, with the style's
  aspect ratio (rustic/dark 4:3, bright/modern 16:9, social media 1:1).  Without a key
  every call throws before it sends anything.  A blank menu has no such line: no call is
  made.
\<close>

theorem one_request_per_dish:
  assumes "handleGenerateImages uuidv4 env draws st = (st', draws', calls, requests)"
  shows "calls = map (\<lambda>dish. (dish, selectedStyle st)) (dishes_of (menuText st)) \<and>
         length calls = length (dishes_of (menuText st)) \<and>
         (\<not> falsy (gen_API_KEY env) \<longrightarrow>
            requests = map (generateRequest (selectedStyle st)) (dishes_of (menuText st)) \<and>
            length requests = length (dishes_of (menuText st))) \<and>
         (falsy (gen_API_KEY env) \<longrightarrow> requests = []) \<and>
         (\<forall>dish.
            prompt (generateRequest RUSTIC_DARK dish) =
              str ''High-end, professional food photography, rustic, dark lighting, moody, close-up, '' @ dish \<and>
            aspectRatio (generateRequest RUSTIC_DARK dish) = Ratio_4_3 \<and>
            prompt (generateRequest BRIGHT_MODERN dish) =
              str ''High-end, professional food photography, bright, modern, clean background, vibrant colors, '' @ dish \<and>
            aspectRatio (generateRequest BRIGHT_MODERN dish) = Ratio_16_9 \<and>
            prompt (generateRequest SOCIAL_MEDIA dish) =
              str ''High-end, professional food photography, top-down view, social media ready, bright, clean, well-lit, '' @ dish \<and>
            aspectRatio (generateRequest SOCIAL_MEDIA dish) = Ratio_1_1)"
proof -
  let ?dishes = "dishes_of (menuText st)"
  have table: "\<forall>dish.
            prompt (generateRequest RUSTIC_DARK dish) =
              str ''High-end, professional food photography, rustic, dark lighting, moody, close-up, '' @ dish \<and>
            aspectRatio (generateRequest RUSTIC_DARK dish) = Ratio_4_3 \<and>
            prompt (generateRequest BRIGHT_MODERN dish) =
              str ''High-end, professional food photography, bright, modern, clean background, vibrant colors, '' @ dish \<and>
            aspectRatio (generateRequest BRIGHT_MODERN dish) = Ratio_16_9 \<and>
            prompt (generateRequest SOCIAL_MEDIA dish) =
              str ''High-end, professional food photography, top-down view, social media ready, bright, clean, well-lit, '' @ dish \<and>
            aspectRatio (generateRequest SOCIAL_MEDIA dish) = Ratio_1_1"
    by (simp add: generateRequest_def fullPrompt_def styleAspectRatio_def)
  have logs: "calls = map (\<lambda>dish. (dish, selectedStyle st)) ?dishes \<and>
      requests = concat (map (\<lambda>i. snd (batchCall env (selectedStyle st) ?dishes i))
                    [0..<length ?dishes])"
  proof (cases "trim (menuText st) = []")
    case True
    then have "?dishes = []"
      by (simp add: dishes_of_Nil_iff trim_Nil_iff)
    with True assms show ?thesis by (simp add: handleGenerateImages_def)
  next
    case False
    from handleGenerateImages_run [OF False, of uuidv4 env draws] assms show ?thesis
      by simp
  qed
  have present: "requests = map (generateRequest (selectedStyle st)) ?dishes"
    if key: "\<not> falsy (gen_API_KEY env)"
  proof -
    from logs key
    have "requests = map (\<lambda>i. generateRequest (selectedStyle st) (?dishes ! i))
        [0..<length ?dishes]"
      by (simp add: batchCall_def generateFoodImage_requests concat_singletons)
    also have "\<dots> = map (generateRequest (selectedStyle st)) ?dishes"
      by (rule nth_equalityI) simp_all
    finally show ?thesis .
  qed
  have missing: "requests = []" if "falsy (gen_API_KEY env)"
    using logs that by (simp add: batchCall_def generateFoodImage_def)
  from logs present missing table show ?thesis by simp
qed

theorem one_request_per_dish_witness:
  "map prompt (snd (snd (snd
      (handleGenerateImages sampleUuid sampleGenEnv 5 (initialApp\<lparr>menuText := sampleMenu\<rparr>))))) =
     [str ''High-end, professional food photography, bright, modern, clean background, vibrant colors, Soup'',
      str ''High-end, professional food photography, bright, modern, clean background, vibrant colors, Taco'',
      str ''High-end, professional food photography, bright, modern, clean background, vibrant colors, Cake'']"
proof -
  have key: "\<not> falsy (gen_API_KEY sampleGenEnv)"
    by (simp add: sampleGenEnv_def str_def)
  from one_request_per_dish [OF sample_run] key
  have "[generateRequest BRIGHT_MODERN (str ''Soup''),
         generateRequest BRIGHT_MODERN (str ''Taco''),
         generateRequest BRIGHT_MODERN (str ''Cake'')] =
        map (generateRequest (selectedStyle (initialApp\<lparr>menuText := sampleMenu\<rparr>)))
          (dishes_of (menuText (initialApp\<lparr>menuText := sampleMenu\<rparr>)))"
    by blast
  then have "snd (snd (snd
      (handleGenerateImages sampleUuid sampleGenEnv 5 (initialApp\<lparr>menuText := sampleMenu\<rparr>)))) =
     map (generateRequest BRIGHT_MODERN) [str ''Soup'', str ''Taco'', str ''Cake'']"
    by (simp add: sample_run)
  then show ?thesis
    by (simp add: generateRequest_def fullPrompt_def str_def)
qed


lemma filter_settle_order:
  "filter P (settle_order lat n) = sort_key lat (filter P [0..<n])"
  by (simp add: settle_order_def filter_sort)

lemma lastFailure_none:
  assumes "filter (\<lambda>i. isl (outcome i)) [0..<n] = []"
  shows "lastFailure outcome (settle_order lat n) = None"
  using assms by (simp add: lastFailure_def filter_settle_order)

lemma lastFailure_single:
  assumes "filter (\<lambda>i. isl (outcome i)) [0..<n] = [i]"
  shows "lastFailure outcome (settle_order lat n) = Some i"
  using assms by (simp add: lastFailure_def filter_settle_order)

lemma lastFailure_some:
  assumes "filter (\<lambda>i. isl (outcome i)) [0..<n] \<noteq> []"
  shows "\<exists>i \<in> set (filter (\<lambda>i. isl (outcome i)) [0..<n]).
           lastFailure outcome (settle_order lat n) = Some i"
proof -
  let ?fs = "filter (\<lambda>i. isl (outcome i)) (settle_order lat n)"
  have set_eq: "set ?fs = set (filter (\<lambda>i. isl (outcome i)) [0..<n])"
    by (simp add: filter_settle_order)
  with assms have ne: "?fs \<noteq> []"
    by (metis set_empty)
  then have "lastFailure outcome (settle_order lat n) = Some (last ?fs)"
    by (cases ?fs) (simp_all add: lastFailure_def)
  moreover from ne have "last ?fs \<in> set ?fs" by (rule last_in_set)
  ultimately show ?thesis using set_eq by blast
qed

lemma length_filter_complement:
  "length (filter (\<lambda>i. \<not> P i) xs) + length (filter P xs) = length xs"
  by (induction xs) simp_all

text \<open>
  C3, as the code has it.  A failed call never aborts the batch: the session holds the
  successful dishes in menu order, one entry fewer for every failure.  The failures are not
  collected in a list: the error state is one string, and it ends as the message naming
  the failed dish whose call settled last (none when no call failed).  When exactly one
  dish fails, for instance one of three, the session has all the others and the one message
  names that dish.
\<close>

theorem failures_keep_one_message:
  assumes "trim (menuText st) \<noteq> []"
      and "handleGenerateImages uuidv4 env draws st = (st', draws', calls, requests)"
  shows "let dishes = dishes_of (menuText st);
             n = length dishes;
             outcome = batchOutcome env (selectedStyle st) dishes;
             failed = filter (\<lambda>i. isl (outcome i)) [0..<n]
         in map dishName (generatedImages st') =
              map (\<lambda>i. dishes ! i) (filter (\<lambda>i. \<not> isl (outcome i)) [0..<n]) \<and>
            length (generatedImages st') + length failed = n \<and>
            error st' =
              (case lastFailure outcome (settle_order (latency env) n) of
                 None \<Rightarrow> None
               | Some i \<Rightarrow> Some (generateErrorMessage (dishes ! i))) \<and>
            (failed = [] \<longrightarrow> reportedErrors st' = []) \<and>
            (failed \<noteq> [] \<longrightarrow>
               (\<exists>i \<in> set failed. reportedErrors st' = [generateErrorMessage (dishes ! i)])) \<and>
            (\<forall>i. failed = [i] \<longrightarrow>
               reportedErrors st' = [generateErrorMessage (dishes ! i)] \<and>
               length (generatedImages st') = n - 1)"
proof -
  let ?dishes = "dishes_of (menuText st)"
  let ?n = "length ?dishes"
  let ?outcome = "batchOutcome env (selectedStyle st) ?dishes"
  let ?failed = "filter (\<lambda>i. isl (?outcome i)) [0..<?n]"
  let ?last = "lastFailure ?outcome (settle_order (latency env) ?n)"
  have sess: "generatedImages st' =
      map (\<lambda>i. newImage
                  (uuidv4 (draws + rank ?outcome (settle_order (latency env) ?n) i))
                  (?dishes ! i) (projr (?outcome i)))
        (filter (\<lambda>i. \<not> isl (?outcome i)) [0..<?n])"
    using handleGenerateImages_session [OF assms(1), of uuidv4 env draws] assms(2) by simp
  have names: "map dishName (generatedImages st') =
      map (\<lambda>i. ?dishes ! i) (filter (\<lambda>i. \<not> isl (?outcome i)) [0..<?n])"
    unfolding sess by (simp add: newImage_def)
  have count: "length (generatedImages st') + length ?failed = ?n"
    unfolding sess using length_filter_complement [of "\<lambda>i. isl (?outcome i)" "[0..<?n]"]
    by simp
  have err: "error st' =
      (case ?last of None \<Rightarrow> None | Some i \<Rightarrow> Some (generateErrorMessage (?dishes ! i)))"
    using handleGenerateImages_run [OF assms(1), of uuidv4 env draws] assms(2) by simp
  have none: "?failed = [] \<longrightarrow> reportedErrors st' = []"
    using lastFailure_none [of ?outcome ?n "latency env"]
    by (simp add: reportedErrors_def err)
  have some: "?failed \<noteq> [] \<longrightarrow>
      (\<exists>i \<in> set ?failed. reportedErrors st' = [generateErrorMessage (?dishes ! i)])"
  proof
    assume "?failed \<noteq> []"
    from lastFailure_some [OF this, of "latency env"]
    obtain i where "i \<in> set ?failed" and "?last = Some i" by blast
    then show "\<exists>i \<in> set ?failed. reportedErrors st' = [generateErrorMessage (?dishes ! i)]"
      by (auto simp: reportedErrors_def err)
  qed
  have one: "\<forall>i. ?failed = [i] \<longrightarrow>
      reportedErrors st' = [generateErrorMessage (?dishes ! i)] \<and>
      length (generatedImages st') = ?n - 1"
  proof (intro allI impI)
    fix i
    assume f: "?failed = [i]"
    from lastFailure_single [OF this, of "latency env"]
    have "reportedErrors st' = [generateErrorMessage (?dishes ! i)]"
      by (simp add: reportedErrors_def err)
    moreover from count f have "length (generatedImages st') = ?n - 1" by simp
    ultimately show "reportedErrors st' = [generateErrorMessage (?dishes ! i)] \<and>
      length (generatedImages st') = ?n - 1" ..
  qed
  show ?thesis
    unfolding Let_def using names count err none some one by blast
qed


theorem failures_keep_one_message_witness:
  \<open>length (generatedImages (fst
      (handleGenerateImages sampleUuid sampleGenEnv 5 (initialApp\<lparr>menuText := sampleMenu\<rparr>)))) = 2 \<and>
   reportedErrors (fst
      (handleGenerateImages sampleUuid sampleGenEnv 5 (initialApp\<lparr>menuText := sampleMenu\<rparr>))) =
     [str ''Failed to generate image for "Taco". Please try again.'']\<close>
proof -
  have failed: "filter (\<lambda>i. isl (batchOutcome sampleGenEnv
        (selectedStyle (initialApp\<lparr>menuText := sampleMenu\<rparr>))
        (dishes_of (menuText (initialApp\<lparr>menuText := sampleMenu\<rparr>))) i))
      [0..<length (dishes_of (menuText (initialApp\<lparr>menuText := sampleMenu\<rparr>)))] = [Suc 0]"
    by (simp add: sample_dishes upt_rec batchOutcome_def sample_calls)
  note all = failures_keep_one_message [OF sample_app_trim sample_run, unfolded Let_def]
  note one = all [THEN conjunct2, THEN conjunct2, THEN conjunct2, THEN conjunct2,
    THEN conjunct2, rule_format, OF failed]
  from one show ?thesis
    by (simp add: sample_run sample_dishes generateErrorMessage_def str_def)
qed

lemma failing_calls:
  "batchCall failingGenEnv style [str ''Soup'', str ''Taco'', str ''Cake''] i =
     (Inl (str ''Failed to generate image: quota''),
      [generateRequest style ([str ''Soup'', str ''Taco'', str ''Cake''] ! i)])"
  by (simp add: batchCall_def generateFoodImage_def failingGenEnv_def str_def)

lemma failing_latency: "latency failingGenEnv = (\<lambda>i. 0)"
  by (simp add: failingGenEnv_def)

lemma failing_run:
  "fst (handleGenerateImages sampleUuid failingGenEnv 0 (initialApp\<lparr>menuText := sampleMenu\<rparr>)) =
     initialApp\<lparr>menuText := sampleMenu, error := Some (generateErrorMessage (str ''Cake''))\<rparr>"
  using sample_trim
  by (simp add: handleGenerateImages_def Let_def initialApp_def sample_dishes
        settle_order_def failing_latency
        batchOutcome_def failing_calls settle_def List.map_filter_simps upt_rec)


text \<open>
  C3 as stated fails: the three dishes of the sample menu all fail, and the page reports
  one message, for the last dish, and none for the other two.
\<close>

theorem error_list_counterexample:
  \<open>dishes_of sampleMenu = [str ''Soup'', str ''Taco'', str ''Cake''] \<and>
   batchOutcome failingGenEnv BRIGHT_MODERN (dishes_of sampleMenu) 0 =
     Inl (str ''Failed to generate image: quota'') \<and>
   batchOutcome failingGenEnv BRIGHT_MODERN (dishes_of sampleMenu) 1 =
     Inl (str ''Failed to generate image: quota'') \<and>
   batchOutcome failingGenEnv BRIGHT_MODERN (dishes_of sampleMenu) 2 =
     Inl (str ''Failed to generate image: quota'') \<and>
   generatedImages (fst (handleGenerateImages sampleUuid failingGenEnv 0
      (initialApp\<lparr>menuText := sampleMenu\<rparr>))) = [] \<and>
   reportedErrors (fst (handleGenerateImages sampleUuid failingGenEnv 0
      (initialApp\<lparr>menuText := sampleMenu\<rparr>))) =
     [str ''Failed to generate image for "Cake". Please try again.'']\<close>
  by (simp add: sample_dishes batchOutcome_def failing_calls failing_run reportedErrors_def)
    (simp add: generateErrorMessage_def str_def initialApp_def)

section \<open>The interface: media types\<close>

lemma jpegUrl_dataUrl: "jpegUrl (dataUrl (str ''image/jpeg'') b)"
  unfolding jpegUrl_def
  by (rule extractMimeType_dataUrl) (simp_all add: str_def semicolon_def colon_def)

lemma decodeDataUrl_mime:
  "decodeDataUrl url = Some (b, t) \<Longrightarrow> extractMimeType url = Some t"
  by (auto simp: decodeDataUrl_def split: option.splits if_splits)

lemma extractMimeType_edited:
  assumes "decodeDataUrl url = Some (b, t)"
  shows "extractMimeType (dataUrl t edited) = extractMimeType url"
  using decodeDataUrl_Some [OF assms] decodeDataUrl_mime [OF assms]
  by (simp add: extractMimeType_dataUrl)

lemma handleEdit_cases:
  assumes "handleEdit env img m = (m', r, requests)"
  shows "(r = None \<and> currentEditedImageUrl m' = currentEditedImageUrl m) \<or>
         (\<exists>b t edited.
            decodeDataUrl (currentEditedImageUrl m) = Some (b, t) \<and>
            r = Some (img\<lparr>imageUrl := dataUrl t edited,
                           editHistory := editHistory img @
                             [\<lparr>edit_prompt = editPrompt m, edit_imageUrl = dataUrl t edited\<rparr>]\<rparr>) \<and>
            currentEditedImageUrl m' = dataUrl t edited)"
  using assms
  by (auto simp: handleEdit_def Let_def split: if_splits option.splits prod.splits sum.splits)

lemma handleGenerateImages_blank:
  "trim (menuText st) = [] \<Longrightarrow>
   handleGenerateImages uuidv4 env draws st =
     (st\<lparr>error := Some (str ''Please enter your menu items.'')\<rparr>, draws, [], [])"
  by (simp add: handleGenerateImages_def)

lemma handleGenerateImages_editing:
  "editingImage (fst (handleGenerateImages uuidv4 env draws st)) = editingImage st"
  by (cases "trim (menuText st) = []")
    (simp_all add: handleGenerateImages_blank handleGenerateImages_run)

lemma handleGenerateImages_jpeg:
  assumes "trim (menuText st) \<noteq> []"
      and "g \<in> set (generatedImages (fst (handleGenerateImages uuidv4 env draws st)))"
  shows "\<exists>b. imageUrl g = dataUrl (str ''image/jpeg'') b \<and> editHistory g = []"
  using assms(2) unfolding handleGenerateImages_session [OF assms(1)]
  by (auto simp: newImage_def)


lemma step_generate:
  "\<not> loading (app u) \<Longrightarrow>
   step uuidv4 (ClickGenerate env) u =
     u\<lparr>app := fst (handleGenerateImages uuidv4 env (uuid_draws u) (app u)),
       uuid_draws := fst (snd (handleGenerateImages uuidv4 env (uuid_draws u) (app u)))\<rparr>"
  by (simp split: prod.splits)

lemma images_generate:
  assumes "\<not> loading (app u)"
  shows "images (step uuidv4 (ClickGenerate env) u) =
     set (generatedImages (fst (handleGenerateImages uuidv4 env (uuid_draws u) (app u)))) \<union>
     set_option (editingImage (app u))"
  by (simp add: step_generate [OF assms] images_def handleGenerateImages_editing
        del: step.simps)

lemma allJpeg_generate:
  assumes "allJpeg u"
  shows "allJpeg (step uuidv4 (ClickGenerate env) u)"
proof (cases "loading (app u)")
  case True
  with assms show ?thesis by simp
next
  case False
  show ?thesis
  proof (cases "trim (menuText (app u)) = []")
    case True
    with assms False show ?thesis
      by (simp add: step_generate handleGenerateImages_blank allJpeg_def images_def
            del: step.simps)
  next
    case nonblank: False
    have new: "jpegUrl (imageUrl g) \<and> (\<forall>h \<in> set (editHistory g). jpegUrl (edit_imageUrl h))"
      if "g \<in> set (generatedImages (fst (handleGenerateImages uuidv4 env (uuid_draws u) (app u))))"
      for g
      using handleGenerateImages_jpeg [OF nonblank that] by (auto simp: jpegUrl_dataUrl)
    have old: "jpegUrl (imageUrl g) \<and> (\<forall>h \<in> set (editHistory g). jpegUrl (edit_imageUrl h))"
      if "g \<in> set_option (editingImage (app u))" for g
      using assms that by (simp add: allJpeg_def images_def)
    have m: "\<forall>m \<in> set_option (modal (step uuidv4 (ClickGenerate env) u)).
        jpegUrl (currentEditedImageUrl m)"
      using assms False by (simp add: step_generate allJpeg_def del: step.simps)
    show ?thesis
      unfolding allJpeg_def images_generate [OF False] using new old m by blast
  qed
qed

lemma allJpeg_edit:
  assumes "allJpeg u"
  shows "allJpeg (step uuidv4 (ClickApplyEdit env) u)"
proof (cases "editingImage (app u)")
  case None
  with assms show ?thesis by simp
next
  case (Some img)
  show ?thesis
  proof (cases "modal u")
    case None
    with assms Some show ?thesis by simp
  next
    case modal: (Some m)
    show ?thesis
    proof (cases "modal_editingImage m")
      case True
      with assms Some modal show ?thesis by simp
    next
      case False
      obtain m' r requests where h: "handleEdit env img m = (m', r, requests)"
        by (cases "handleEdit env img m") auto
      from assms Some modal have img: "jpegUrl (imageUrl img)"
          "\<forall>h \<in> set (editHistory img). jpegUrl (edit_imageUrl h)"
        and cur: "jpegUrl (currentEditedImageUrl m)"
        and rest: "\<forall>g \<in> set (generatedImages (app u)).
           jpegUrl (imageUrl g) \<and> (\<forall>h \<in> set (editHistory g). jpegUrl (edit_imageUrl h))"
        by (simp_all add: allJpeg_def images_def)
      from handleEdit_cases [OF h] show ?thesis
      proof (elim disjE conjE exE)
        assume "r = None" and "currentEditedImageUrl m' = currentEditedImageUrl m"
        with assms Some modal False h cur show ?thesis
          by (simp add: allJpeg_def images_def)
      next
        fix b t edited
        assume d: "decodeDataUrl (currentEditedImageUrl m) = Some (b, t)"
          and r: "r = Some (img\<lparr>imageUrl := dataUrl t edited,
                           editHistory := editHistory img @
                             [\<lparr>edit_prompt = editPrompt m, edit_imageUrl = dataUrl t edited\<rparr>]\<rparr>)"
          and c: "currentEditedImageUrl m' = dataUrl t edited"
        from extractMimeType_edited [OF d] cur have new: "jpegUrl (dataUrl t edited)"
          by (simp add: jpegUrl_def)
        with Some modal False h r c img rest show ?thesis
          by (auto simp: allJpeg_def images_def handleImageEdited_def)
      qed
    qed
  qed
qed

lemma allJpeg_step:
  assumes "allJpeg u"
  shows "allJpeg (step uuidv4 e u)"
proof (cases e)
  case (ClickGenerate env)
  with assms show ?thesis by (simp only: allJpeg_generate)
next
  case (ClickApplyEdit env)
  with assms show ?thesis by (simp only: allJpeg_edit)
next
  case (ClickEditPhoto i)
  with assms show ?thesis
    by (auto simp: allJpeg_def images_def arr_get_def handleEditImage_def mountModal_def
          split: option.splits if_splits)
qed (use assms in \<open>auto simp: allJpeg_def images_def closeEditorModal_def split: option.splits\<close>)

lemma allJpeg_initial: "allJpeg initialUI"
  by (simp add: allJpeg_def images_def initialUI_def initialApp_def)

lemma allJpeg_run: "allJpeg u \<Longrightarrow> allJpeg (run uuidv4 events u)"
  unfolding run_def by (induction events arbitrary: u) (simp_all add: allJpeg_step)


lemma sample_run0:
  "handleGenerateImages sampleUuid sampleGenEnv 0 (initialApp\<lparr>menuText := sampleMenu\<rparr>) =
     (initialApp
        \<lparr>menuText := sampleMenu,
         error := Some (generateErrorMessage (str ''Taco'')),
         generatedImages :=
           [newImage (sampleUuid (Suc 0)) (str ''Soup'') (str ''AAAA''),
            newImage (sampleUuid 0) (str ''Cake'') (str ''CCCC'')]\<rparr>,
      Suc (Suc 0),
      [(str ''Soup'', BRIGHT_MODERN), (str ''Taco'', BRIGHT_MODERN), (str ''Cake'', BRIGHT_MODERN)],
      [generateRequest BRIGHT_MODERN (str ''Soup''),
       generateRequest BRIGHT_MODERN (str ''Taco''),
       generateRequest BRIGHT_MODERN (str ''Cake'')])"
  using sample_trim
  by (simp add: handleGenerateImages_def Let_def initialApp_def sample_dishes sample_order
        batchOutcome_def sample_calls settle_def List.map_filter_simps upt_rec)

lemma sample_edit:
  "handleEdit pngEditEnv (newImage u (str ''Soup'') (str ''AAAA''))
       ((mountModal (newImage u (str ''Soup'') (str ''AAAA'')))
          \<lparr>editPrompt := str ''make it brighter''\<rparr>) =
     ((mountModal (newImage u (str ''Soup'') (str ''AAAA'')))
        \<lparr>editPrompt := [], modal_editingImage := False, modal_error := None,
         currentEditedImageUrl := str ''data:image/jpeg;base64,AAAAB''\<rparr>,
      Some ((newImage u (str ''Soup'') (str ''AAAA''))
        \<lparr>imageUrl := str ''data:image/jpeg;base64,AAAAB'',
         editHistory := [\<lparr>edit_prompt = str ''make it brighter'',
                          edit_imageUrl = str ''data:image/jpeg;base64,AAAAB''\<rparr>]\<rparr>),
      [\<lparr>gc_model = str ''gemini-2.5-flash-image'', gc_data = str ''AAAA'',
        gc_mimeType = str ''image/jpeg'', gc_text = str ''make it brighter''\<rparr>])"
  by (simp add: handleEdit_def eval_defs mountModal_def newImage_def pngEditEnv_def
        imageResponse_def Let_def)

lemma sample_session:
  "generatedImages (app (run sampleUuid sampleEvents initialUI)) =
     [(newImage (sampleUuid (Suc 0)) (str ''Soup'') (str ''AAAA''))
        \<lparr>imageUrl := str ''data:image/jpeg;base64,AAAAB'',
         editHistory := [\<lparr>edit_prompt = str ''make it brighter'',
                          edit_imageUrl = str ''data:image/jpeg;base64,AAAAB''\<rparr>]\<rparr>,
      newImage (sampleUuid 0) (str ''Cake'') (str ''CCCC'')]"
proof -
  let ?soup = "newImage (sampleUuid (Suc 0)) (str ''Soup'') (str ''AAAA'')"
  let ?cake = "newImage (sampleUuid 0) (str ''Cake'') (str ''CCCC'')"
  let ?soup' = "?soup\<lparr>imageUrl := str ''data:image/jpeg;base64,AAAAB'',
         editHistory := [\<lparr>edit_prompt = str ''make it brighter'',
                          edit_imageUrl = str ''data:image/jpeg;base64,AAAAB''\<rparr>]\<rparr>"
  let ?A = "initialApp\<lparr>menuText := sampleMenu,
           error := Some (generateErrorMessage (str ''Taco'')),
           generatedImages := [?soup, ?cake]\<rparr>"
  have l: "\<not> loading initialApp" by (simp add: initialApp_def)
  have u1: "step sampleUuid (ChangeMenuText sampleMenu) initialUI =
      \<lparr>app = initialApp\<lparr>menuText := sampleMenu\<rparr>, modal = None, uuid_draws = 0\<rparr>"
    using l by (simp add: initialUI_def)
  have u2: "step sampleUuid (ClickGenerate sampleGenEnv)
        \<lparr>app = initialApp\<lparr>menuText := sampleMenu\<rparr>, modal = None, uuid_draws = 0\<rparr> =
      \<lparr>app = ?A, modal = None, uuid_draws = Suc (Suc 0)\<rparr>"
    using l by (simp add: sample_run0)
  have u3: "step sampleUuid (ClickEditPhoto 0) \<lparr>app = ?A, modal = None, uuid_draws = Suc (Suc 0)\<rparr> =
      \<lparr>app = ?A\<lparr>editingImage := Some ?soup\<rparr>, modal = Some (mountModal ?soup),
        uuid_draws = Suc (Suc 0)\<rparr>"
    by (simp add: arr_get_def handleEditImage_def)
  have b: "\<not> modal_editingImage (mountModal ?soup)"
    by (simp add: mountModal_def)
  have u4: "step sampleUuid (ChangeEditPrompt (str ''make it brighter''))
        \<lparr>app = ?A\<lparr>editingImage := Some ?soup\<rparr>, modal = Some (mountModal ?soup),
          uuid_draws = Suc (Suc 0)\<rparr> =
      \<lparr>app = ?A\<lparr>editingImage := Some ?soup\<rparr>,
        modal = Some ((mountModal ?soup)\<lparr>editPrompt := str ''make it brighter''\<rparr>),
        uuid_draws = Suc (Suc 0)\<rparr>"
    using b by simp
  have ids: "id_field ?cake \<noteq> id_field ?soup'"
    by (simp add: newImage_def sampleUuid_def)
  have u5: "generatedImages (app (step sampleUuid (ClickApplyEdit pngEditEnv)
        \<lparr>app = ?A\<lparr>editingImage := Some ?soup\<rparr>,
          modal = Some ((mountModal ?soup)\<lparr>editPrompt := str ''make it brighter''\<rparr>),
          uuid_draws = Suc (Suc 0)\<rparr>)) = [?soup', ?cake]"
    using b ids by (simp add: sample_edit handleImageEdited_def newImage_fields)
  show ?thesis
    unfolding run_def sampleEvents_def
    by (simp only: fold_simps o_apply u1 u2 u3 u4 u5)
qed


text \<open>
  C10.  The media type in an image's data URL never changes.  The batch handler writes
  \<^verbatim>\<open>image/jpeg\<close> into every URL it builds, whatever the service returned.  A successful edit
  builds the new URL from the media type it extracted from the editor's current URL and
  the returned data, so the new URL has the media type of the old one, whatever the media
  type of the returned part was.  Hence in every state the interface reaches from its
  initial state, every current URL, every URL of an edit history and the editor's URL has
  the media type \<^verbatim>\<open>image/jpeg\<close>.
\<close>

theorem media_type_stays_jpeg:
  "(trim (menuText st) \<noteq> [] \<longrightarrow>
      (\<forall>g \<in> set (generatedImages (fst (handleGenerateImages uuidv4 env draws st))).
         (\<exists>b. imageUrl g = dataUrl (str ''image/jpeg'') b) \<and>
         extractMimeType (imageUrl g) = Some (str ''image/jpeg''))) \<and>
   (\<forall>m' updatedImage requests.
      handleEdit editEnv img m = (m', Some updatedImage, requests) \<longrightarrow>
        (\<exists>t edited.
           extractMimeType (currentEditedImageUrl m) = Some t \<and>
           imageUrl updatedImage = dataUrl t edited) \<and>
        extractMimeType (imageUrl updatedImage) = extractMimeType (currentEditedImageUrl m)) \<and>
   allJpeg (run uuidv4 events initialUI)"
proof (intro conjI impI allI ballI)
  fix g
  assume "trim (menuText st) \<noteq> []"
    and "g \<in> set (generatedImages (fst (handleGenerateImages uuidv4 env draws st)))"
  from handleGenerateImages_jpeg [OF this]
  obtain b where b: "imageUrl g = dataUrl (str ''image/jpeg'') b" by blast
  then show "\<exists>b. imageUrl g = dataUrl (str ''image/jpeg'') b" ..
  from b jpegUrl_dataUrl [of b]
  show "extractMimeType (imageUrl g) = Some (str ''image/jpeg'')"
    by (simp add: jpegUrl_def)
next
  fix m' updatedImage requests
  assume h: "handleEdit editEnv img m = (m', Some updatedImage, requests)"
  from handleEdit_cases [OF h]
  obtain b t edited where d: "decodeDataUrl (currentEditedImageUrl m) = Some (b, t)"
    and u: "imageUrl updatedImage = dataUrl t edited"
    by auto
  from decodeDataUrl_mime [OF d] u
  show "\<exists>t edited. extractMimeType (currentEditedImageUrl m) = Some t \<and>
      imageUrl updatedImage = dataUrl t edited"
    by blast
  from extractMimeType_edited [OF d] u
  show "extractMimeType (imageUrl updatedImage) = extractMimeType (currentEditedImageUrl m)"
    by simp
next
  show "allJpeg (run uuidv4 events initialUI)"
    by (rule allJpeg_run [OF allJpeg_initial])
qed

theorem media_type_stays_jpeg_witness:
  "map imageUrl (generatedImages (app (run sampleUuid sampleEvents initialUI))) =
     [str ''data:image/jpeg;base64,AAAAB'', str ''data:image/jpeg;base64,CCCC''] \<and>
   jpegUrl (str ''data:image/jpeg;base64,AAAAB'')"
proof -
  have urls: "map imageUrl (generatedImages (app (run sampleUuid sampleEvents initialUI))) =
     [str ''data:image/jpeg;base64,AAAAB'', str ''data:image/jpeg;base64,CCCC'']"
    by (simp add: sample_session newImage_def dataUrl_def str_def)
  from media_type_stays_jpeg [of _ sampleUuid _ _ _ _ _ sampleEvents]
  have "allJpeg (run sampleUuid sampleEvents initialUI)" by blast
  then have "\<forall>g \<in> set (generatedImages (app (run sampleUuid sampleEvents initialUI))).
      jpegUrl (imageUrl g)"
    by (simp add: allJpeg_def images_def)
  then have "\<forall>url \<in> set (map imageUrl
      (generatedImages (app (run sampleUuid sampleEvents initialUI)))). jpegUrl url"
    by simp
  then have "jpegUrl (str ''data:image/jpeg;base64,AAAAB'')"
    unfolding urls by simp
  with urls show ?thesis ..
qed

section \<open>The interface: identity of the images\<close>

lemma tracked_cong:
  assumes "id_field g = id_field h" and "dishName g = dishName h"
      and "originalPrompt g = originalPrompt h"
  shows "tracked uuidv4 g u = tracked uuidv4 h u"
  using assms by (simp add: tracked_def drawn_def)

lemma handleGenerateImages_draws:
  "draws \<le> fst (snd (handleGenerateImages uuidv4 env draws st))"
  by (cases "trim (menuText st) = []")
    (simp_all add: handleGenerateImages_blank handleGenerateImages_run)

lemma handleGenerateImages_ids:
  assumes "trim (menuText st) \<noteq> []"
  shows "map id_field (generatedImages (fst (handleGenerateImages uuidv4 env draws st))) =
     map (\<lambda>i. uuidv4 (draws +
                 rank (batchOutcome env (selectedStyle st) (dishes_of (menuText st)))
                   (settle_order (latency env) (length (dishes_of (menuText st)))) i))
       (filter (\<lambda>i. \<not> isl (batchOutcome env (selectedStyle st) (dishes_of (menuText st)) i))
          [0..<length (dishes_of (menuText st))])"
  unfolding handleGenerateImages_session [OF assms] by (simp add: newImage_fields)

lemma new_session_fresh:
  assumes "trim (menuText st) \<noteq> []"
      and "g \<in> set (generatedImages (fst (handleGenerateImages uuidv4 env draws st)))"
  shows "\<exists>k. draws \<le> k \<and> k < fst (snd (handleGenerateImages uuidv4 env draws st)) \<and>
             id_field g = uuidv4 k"
proof -
  from assms(2) have "id_field g \<in>
      set (map id_field (generatedImages (fst (handleGenerateImages uuidv4 env draws st))))"
    by simp
  then have "id_field g \<in> uuidv4 ` {draws ..< fst (snd (handleGenerateImages uuidv4 env draws st))}"
    unfolding handleGenerateImages_ids [OF assms(1)]
    using session_ids_fresh
      [of uuidv4 draws "batchOutcome env (selectedStyle st) (dishes_of (menuText st))"
          "latency env" "length (dishes_of (menuText st))"]
    by (auto simp: handleGenerateImages_run [OF assms(1)])
  then show ?thesis by auto
qed

lemma new_session_unique:
  assumes "inj uuidv4" and "trim (menuText st) \<noteq> []"
      and "g \<in> set (generatedImages (fst (handleGenerateImages uuidv4 env draws st)))"
      and "g' \<in> set (generatedImages (fst (handleGenerateImages uuidv4 env draws st)))"
      and "id_field g = id_field g'"
  shows "g = g'"
proof -
  have "distinct (map id_field (generatedImages (fst (handleGenerateImages uuidv4 env draws st))))"
    unfolding handleGenerateImages_ids [OF assms(2)] by (rule session_ids_distinct [OF assms(1)])
  then have "inj_on id_field (set (generatedImages (fst (handleGenerateImages uuidv4 env draws st))))"
    by (simp add: distinct_map)
  with assms(3-5) show ?thesis by (auto dest: inj_onD)
qed


lemma draws_generate:
  assumes "\<not> loading (app u)"
  shows "uuid_draws (step uuidv4 (ClickGenerate env) u) =
     fst (snd (handleGenerateImages uuidv4 env (uuid_draws u) (app u)))"
  by (simp add: step_generate [OF assms] del: step.simps)

lemma drawn_mono:
  assumes "drawn uuidv4 u g" and "uuid_draws u \<le> uuid_draws u'"
  shows "drawn uuidv4 u' g"
proof -
  from assms(1) obtain k where k: "k < uuid_draws u" "id_field g = uuidv4 k"
    by (auto simp: drawn_def)
  from k(1) assms(2) have "k < uuid_draws u'" by simp
  with k(2) show ?thesis unfolding drawn_def by blast
qed

lemma tracked_generate:
  assumes inj: "inj uuidv4" and t: "tracked uuidv4 g u"
  shows "tracked uuidv4 g (step uuidv4 (ClickGenerate env) u)"
proof (cases "loading (app u)")
  case True
  with t show ?thesis by simp
next
  case False
  let ?h = "handleGenerateImages uuidv4 env (uuid_draws u) (app u)"
  define u' where "u' = step uuidv4 (ClickGenerate env) u"
  have d': "uuid_draws u' = fst (snd ?h)"
    unfolding u'_def by (rule draws_generate [OF False])
  have im: "images u' = set (generatedImages (fst ?h)) \<union> set_option (editingImage (app u))"
    unfolding u'_def by (rule images_generate [OF False])
  have mono: "uuid_draws u \<le> uuid_draws u'"
    unfolding d' by (rule handleGenerateImages_draws)
  from t obtain k0 where k0: "k0 < uuid_draws u" "id_field g = uuidv4 k0"
    by (auto simp: tracked_def drawn_def)
  have "tracked uuidv4 g u'"
  proof (cases "trim (menuText (app u)) = []")
    case True
    with t show ?thesis
      unfolding tracked_def drawn_def im d'
      by (simp add: images_def handleGenerateImages_blank)
  next
    case nonblank: False
    from t have "drawn uuidv4 u g" by (simp add: tracked_def)
    then have g: "drawn uuidv4 u' g" using mono by (rule drawn_mono)
    have each: "drawn uuidv4 u' g' \<and>
        (id_field g' = id_field g \<longrightarrow>
           dishName g' = dishName g \<and> originalPrompt g' = originalPrompt g)"
      if "g' \<in> images u'" for g'
    proof -
      from that have "g' \<in> set (generatedImages (fst ?h)) \<or>
          g' \<in> set_option (editingImage (app u))"
        by (simp add: im)
      then show ?thesis
      proof
        assume "g' \<in> set (generatedImages (fst ?h))"
        from new_session_fresh [OF nonblank this]
        obtain k where k: "uuid_draws u \<le> k" "k < fst (snd ?h)" "id_field g' = uuidv4 k"
          by blast
        from k k0 inj have "id_field g' \<noteq> id_field g"
          by (auto dest: injD)
        moreover from k have "drawn uuidv4 u' g'"
          unfolding drawn_def d' by blast
        ultimately show ?thesis by simp
      next
        assume "g' \<in> set_option (editingImage (app u))"
        then have "g' \<in> images u" by (simp add: images_def)
        with t have old: "drawn uuidv4 u g'"
          and same: "id_field g' = id_field g \<longrightarrow>
             dishName g' = dishName g \<and> originalPrompt g' = originalPrompt g"
          by (simp_all add: tracked_def)
        from old mono have "drawn uuidv4 u' g'" by (rule drawn_mono)
        with same show ?thesis by simp
      qed
    qed
    from g each show ?thesis unfolding tracked_def by blast
  qed
  then show ?thesis unfolding u'_def .
qed

lemma tracked_edit:
  assumes t: "tracked uuidv4 g u"
  shows "tracked uuidv4 g (step uuidv4 (ClickApplyEdit env) u)"
proof (cases "editingImage (app u)")
  case None
  with t show ?thesis by simp
next
  case (Some img)
  show ?thesis
  proof (cases "modal u")
    case None
    with t Some show ?thesis by simp
  next
    case modal: (Some m)
    show ?thesis
    proof (cases "modal_editingImage m")
      case True
      with t Some modal show ?thesis by simp
    next
      case False
      obtain m' r requests where h: "handleEdit env img m = (m', r, requests)"
        by (cases "handleEdit env img m") auto
      from t Some have img: "drawn uuidv4 u img"
          "id_field img = id_field g \<longrightarrow>
             dishName img = dishName g \<and> originalPrompt img = originalPrompt g"
        by (simp_all add: tracked_def images_def)
      from handleEdit_cases [OF h] show ?thesis
      proof (elim disjE conjE exE)
        assume "r = None"
        with t Some modal False h show ?thesis
          by (simp add: tracked_def drawn_def images_def)
      next
        fix b t' edited
        assume r: "r = Some (img\<lparr>imageUrl := dataUrl t' edited,
                           editHistory := editHistory img @
                             [\<lparr>edit_prompt = editPrompt m, edit_imageUrl = dataUrl t' edited\<rparr>]\<rparr>)"
        with t img Some modal False h show ?thesis
          by (auto simp: tracked_def drawn_def images_def handleImageEdited_def)
      qed
    qed
  qed
qed

lemma tracked_step:
  assumes "inj uuidv4" and "tracked uuidv4 g u"
  shows "tracked uuidv4 g (step uuidv4 e u)"
proof (cases e)
  case (ClickGenerate env)
  with assms show ?thesis by (simp only: tracked_generate)
next
  case (ClickApplyEdit env)
  with assms show ?thesis by (simp only: tracked_edit)
next
  case (ClickEditPhoto i)
  with assms(2) show ?thesis
    by (auto simp: tracked_def drawn_def images_def arr_get_def handleEditImage_def
          split: option.splits if_splits)
qed (use assms(2) in \<open>auto simp: tracked_def drawn_def images_def closeEditorModal_def
       split: option.splits\<close>)

lemma tracked_run:
  assumes "inj uuidv4"
  shows "tracked uuidv4 g u \<Longrightarrow> tracked uuidv4 g (run uuidv4 events u)"
  unfolding run_def
  by (induction events arbitrary: u) (simp_all add: tracked_step [OF assms])


lemma image_origin:
  assumes "g \<in> images (step uuidv4 e u)"
  shows "(\<exists>h \<in> images u. id_field h = id_field g \<and> dishName h = dishName g \<and>
            originalPrompt h = originalPrompt g) \<or>
         (\<exists>env. e = ClickGenerate env \<and> \<not> loading (app u) \<and> trim (menuText (app u)) \<noteq> [] \<and>
            g \<in> set (generatedImages
                  (fst (handleGenerateImages uuidv4 env (uuid_draws u) (app u)))))"
proof (cases e)
  case (ClickGenerate env)
  show ?thesis
  proof (cases "loading (app u)")
    case True
    with assms ClickGenerate show ?thesis by auto
  next
    case False
    from assms have g: "g \<in> set (generatedImages
          (fst (handleGenerateImages uuidv4 env (uuid_draws u) (app u)))) \<union>
        set_option (editingImage (app u))"
      unfolding ClickGenerate images_generate [OF False] .
    show ?thesis
    proof (cases "trim (menuText (app u)) = []")
      case True
      with g have "g \<in> images u"
        by (simp add: handleGenerateImages_blank images_def)
      then show ?thesis by blast
    next
      case nonblank: False
      from g show ?thesis
      proof
        assume "g \<in> set (generatedImages
          (fst (handleGenerateImages uuidv4 env (uuid_draws u) (app u))))"
        with ClickGenerate False nonblank show ?thesis by blast
      next
        assume "g \<in> set_option (editingImage (app u))"
        then have "g \<in> images u" by (simp add: images_def)
        then show ?thesis by blast
      qed
    qed
  qed
next
  case (ClickApplyEdit env)
  show ?thesis
  proof (cases "editingImage (app u)")
    case None
    with assms ClickApplyEdit show ?thesis by auto
  next
    case (Some img)
    show ?thesis
    proof (cases "modal u")
      case None
      with assms ClickApplyEdit Some show ?thesis by auto
    next
      case modal: (Some m)
      show ?thesis
      proof (cases "modal_editingImage m")
        case True
        with assms ClickApplyEdit Some modal show ?thesis by auto
      next
        case False
        obtain m' r requests where h: "handleEdit env img m = (m', r, requests)"
          by (cases "handleEdit env img m") auto
        from Some have img: "img \<in> images u" by (simp add: images_def)
        from handleEdit_cases [OF h] show ?thesis
        proof (elim disjE conjE exE)
          assume "r = None"
          with assms ClickApplyEdit Some modal False h have "g \<in> images u"
            by (simp add: images_def)
          then show ?thesis by blast
        next
          fix b t edited
          assume r: "r = Some (img\<lparr>imageUrl := dataUrl t edited,
                           editHistory := editHistory img @
                             [\<lparr>edit_prompt = editPrompt m, edit_imageUrl = dataUrl t edited\<rparr>]\<rparr>)"
          let ?updated = "img\<lparr>imageUrl := dataUrl t edited,
                           editHistory := editHistory img @
                             [\<lparr>edit_prompt = editPrompt m, edit_imageUrl = dataUrl t edited\<rparr>]\<rparr>"
          from assms ClickApplyEdit Some modal False h r
          have "g \<in> set (generatedImages (app u)) \<or> g = ?updated"
            by (auto simp: images_def handleImageEdited_def split: if_splits)
          then show ?thesis
          proof
            assume "g \<in> set (generatedImages (app u))"
            then have "g \<in> images u" by (simp add: images_def)
            then show ?thesis by blast
          next
            assume "g = ?updated"
            with img show ?thesis by (intro disjI1 bexI [of _ img]) simp_all
          qed
        qed
      qed
    qed
  qed
next
  case (ClickEditPhoto i)
  with assms have "g \<in> images u"
    by (auto simp: images_def arr_get_def handleEditImage_def split: option.splits if_splits)
  then show ?thesis by blast
next
  case (ChangeMenuText x)
  with assms have "g \<in> images u" by (auto simp: images_def split: if_splits)
  then show ?thesis by blast
next
  case (SelectStyle x)
  with assms have "g \<in> images u" by (auto simp: images_def split: if_splits)
  then show ?thesis by blast
next
  case (ChangeEditPrompt x)
  with assms have "g \<in> images u" by (auto simp: images_def split: option.splits if_splits)
  then show ?thesis by blast
next
  case ClickClose
  with assms have "g \<in> images u"
    by (auto simp: images_def closeEditorModal_def split: option.splits if_splits)
  then show ?thesis by blast
qed


lemma tracked_new:
  assumes inj: "inj uuidv4"
      and all: "\<forall>h \<in> images u. drawn uuidv4 u h"
      and idle: "\<not> loading (app u)"
      and nonblank: "trim (menuText (app u)) \<noteq> []"
      and g: "g \<in> set (generatedImages
                (fst (handleGenerateImages uuidv4 env (uuid_draws u) (app u))))"
  shows "tracked uuidv4 g (step uuidv4 (ClickGenerate env) u)"
proof -
  let ?h = "handleGenerateImages uuidv4 env (uuid_draws u) (app u)"
  define u' where "u' = step uuidv4 (ClickGenerate env) u"
  have d': "uuid_draws u' = fst (snd ?h)"
    unfolding u'_def by (rule draws_generate [OF idle])
  have im: "images u' = set (generatedImages (fst ?h)) \<union> set_option (editingImage (app u))"
    unfolding u'_def by (rule images_generate [OF idle])
  have mono: "uuid_draws u \<le> uuid_draws u'"
    unfolding d' by (rule handleGenerateImages_draws)
  from new_session_fresh [OF nonblank g]
  obtain k where k: "uuid_draws u \<le> k" "k < fst (snd ?h)" "id_field g = uuidv4 k"
    by blast
  from k have dg: "drawn uuidv4 u' g"
    unfolding drawn_def d' by blast
  have each: "drawn uuidv4 u' g' \<and>
      (id_field g' = id_field g \<longrightarrow>
         dishName g' = dishName g \<and> originalPrompt g' = originalPrompt g)"
    if "g' \<in> images u'" for g'
  proof -
    from that have "g' \<in> set (generatedImages (fst ?h)) \<or>
        g' \<in> set_option (editingImage (app u))"
      by (simp add: im)
    then show ?thesis
    proof
      assume new: "g' \<in> set (generatedImages (fst ?h))"
      from new_session_fresh [OF nonblank new]
      have "drawn uuidv4 u' g'" unfolding drawn_def d' by blast
      moreover have "g' = g" if "id_field g' = id_field g"
        using new_session_unique [OF inj nonblank new g that] .
      ultimately show ?thesis by blast
    next
      assume "g' \<in> set_option (editingImage (app u))"
      then have "g' \<in> images u" by (simp add: images_def)
      with all have old: "drawn uuidv4 u g'" by blast
      then obtain k' where k': "k' < uuid_draws u" "id_field g' = uuidv4 k'"
        by (auto simp: drawn_def)
      from k k' inj have "id_field g' \<noteq> id_field g"
        by (auto dest: injD)
      moreover from old mono have "drawn uuidv4 u' g'" by (rule drawn_mono)
      ultimately show ?thesis by simp
    qed
  qed
  from dg each have "tracked uuidv4 g u'" unfolding tracked_def by blast
  then show ?thesis unfolding u'_def .
qed

lemma consistent_step:
  assumes inj: "inj uuidv4" and c: "\<forall>g \<in> images u. tracked uuidv4 g u"
  shows "\<forall>g \<in> images (step uuidv4 e u). tracked uuidv4 g (step uuidv4 e u)"
proof
  fix g
  assume "g \<in> images (step uuidv4 e u)"
  from image_origin [OF this] show "tracked uuidv4 g (step uuidv4 e u)"
  proof (elim disjE bexE exE conjE)
    fix h
    assume h: "h \<in> images u" and same: "id_field h = id_field g" "dishName h = dishName g"
      "originalPrompt h = originalPrompt g"
    from c h have "tracked uuidv4 h u" ..
    with inj have "tracked uuidv4 h (step uuidv4 e u)" by (rule tracked_step)
    with tracked_cong [OF same] show ?thesis by simp
  next
    fix env
    assume e: "e = ClickGenerate env" and idle: "\<not> loading (app u)"
      and nonblank: "trim (menuText (app u)) \<noteq> []"
      and g: "g \<in> set (generatedImages
                (fst (handleGenerateImages uuidv4 env (uuid_draws u) (app u))))"
    from c have "\<forall>h \<in> images u. drawn uuidv4 u h" by (simp add: tracked_def)
    from tracked_new [OF inj this idle nonblank g] show ?thesis unfolding e .
  qed
qed

lemma consistent_run:
  assumes "inj uuidv4"
  shows "\<forall>g \<in> images (run uuidv4 events initialUI).
           tracked uuidv4 g (run uuidv4 events initialUI)"
proof -
  have gen: "(\<forall>g \<in> images u. tracked uuidv4 g u) \<Longrightarrow>
      \<forall>g \<in> images (fold (step uuidv4) events u). tracked uuidv4 g (fold (step uuidv4) events u)"
    for u
  proof (induction events arbitrary: u)
    case Nil
    then show ?case by simp
  next
    case (Cons e events)
    from consistent_step [OF assms Cons.prems]
    have "\<forall>g \<in> images (step uuidv4 e u). tracked uuidv4 g (step uuidv4 e u)" .
    from Cons.IH [OF this] show ?case by simp
  qed
  have "\<forall>g \<in> images initialUI. tracked uuidv4 g initialUI"
    by (simp add: images_def initialUI_def initialApp_def)
  from gen [OF this] show ?thesis unfolding run_def .
qed

lemma run_append: "run uuidv4 (xs @ ys) u = run uuidv4 ys (run uuidv4 xs u)"
  by (simp add: run_def)


text \<open>
  C7.  The \<open>originalPrompt\<close> of an image the batch creates is the dish: the text the
  handler passed as the prompt to the \<open>generateFoodImage\<close> call that produced the image
  (that call, given a key, sends the style's prefix followed by this text to the remote
  service).  It never changes afterwards: with an id generator that never repeats, an image
  held in any state reached from the initial one keeps its \<open>originalPrompt\<close> and its
  \<open>dishName\<close> in every later state, whatever happens in between (edits, failed edits, new
  batches), the image being recognised by its id.
\<close>

theorem original_prompt_is_dish:
  "(trim (menuText st) \<noteq> [] \<and>
    handleGenerateImages uuidv4 env draws st = (st', draws', calls, requests) \<longrightarrow>
      map originalPrompt (generatedImages st') =
        map (\<lambda>i. fst (calls ! i))
          (filter (\<lambda>i. \<not> isl (batchOutcome env (selectedStyle st) (dishes_of (menuText st)) i))
             [0..<length calls]) \<and>
      (\<not> falsy (gen_API_KEY env) \<longrightarrow>
         map prompt requests = map (\<lambda>c. fullPrompt (snd c) (fst c)) calls)) \<and>
   (inj gen \<and>
    g \<in> images (run gen events1 initialUI) \<and>
    g' \<in> images (run gen events2 (run gen events1 initialUI)) \<and>
    id_field g' = id_field g \<longrightarrow>
      originalPrompt g' = originalPrompt g \<and> dishName g' = dishName g)"
proof (intro conjI impI)
  assume a: "trim (menuText st) \<noteq> [] \<and>
    handleGenerateImages uuidv4 env draws st = (st', draws', calls, requests)"
  let ?dishes = "dishes_of (menuText st)"
  let ?ok = "\<lambda>i. \<not> isl (batchOutcome env (selectedStyle st) ?dishes i)"
  from a have nonblank: "trim (menuText st) \<noteq> []"
    and h: "handleGenerateImages uuidv4 env draws st = (st', draws', calls, requests)"
    by simp_all
  from handleGenerateImages_run [OF nonblank, of uuidv4 env draws] h
  have calls: "calls = map (\<lambda>dish. (dish, selectedStyle st)) ?dishes"
    and reqs: "requests =
      concat (map (\<lambda>i. snd (batchCall env (selectedStyle st) ?dishes i)) [0..<length ?dishes])"
    by simp_all
  from handleGenerateImages_session [OF nonblank, of uuidv4 env draws] h
  have "map originalPrompt (generatedImages st') =
      map (\<lambda>i. ?dishes ! i) (filter ?ok [0..<length ?dishes])"
    by (simp add: newImage_def o_def)
  also have "\<dots> = map (\<lambda>i. fst (calls ! i)) (filter ?ok [0..<length calls])"
    unfolding calls by (rule map_cong) simp_all
  finally show "map originalPrompt (generatedImages st') =
      map (\<lambda>i. fst (calls ! i)) (filter ?ok [0..<length calls])" .
  assume key: "\<not> falsy (gen_API_KEY env)"
  have "requests = map (\<lambda>i. generateRequest (selectedStyle st) (?dishes ! i)) [0..<length ?dishes]"
    unfolding reqs using key
    by (simp add: batchCall_def generateFoodImage_requests concat_singletons)
  also have "\<dots> = map (generateRequest (selectedStyle st)) ?dishes"
    by (rule nth_equalityI) simp_all
  finally show "map prompt requests = map (\<lambda>c. fullPrompt (snd c) (fst c)) calls"
    unfolding calls by (simp add: generateRequest_def o_def)
next
  assume a: "inj gen \<and>
    g \<in> images (run gen events1 initialUI) \<and>
    g' \<in> images (run gen events2 (run gen events1 initialUI)) \<and>
    id_field g' = id_field g"
  then have inj: "inj gen" and g: "g \<in> images (run gen events1 initialUI)"
    and g': "g' \<in> images (run gen events2 (run gen events1 initialUI))"
    and same: "id_field g' = id_field g"
    by simp_all
  from consistent_run [OF inj, of events1] g
  have "tracked gen g (run gen events1 initialUI)" ..
  from tracked_run [OF inj this, of events2] g' same
  have "dishName g' = dishName g \<and> originalPrompt g' = originalPrompt g"
    by (simp add: tracked_def)
  then show "originalPrompt g' = originalPrompt g" and "dishName g' = dishName g"
    by simp_all
qed

lemma sample_generated:
  "run sampleUuid [ChangeMenuText sampleMenu, ClickGenerate sampleGenEnv] initialUI =
     \<lparr>app = initialApp
        \<lparr>menuText := sampleMenu,
         error := Some (generateErrorMessage (str ''Taco'')),
         generatedImages :=
           [newImage (sampleUuid (Suc 0)) (str ''Soup'') (str ''AAAA''),
            newImage (sampleUuid 0) (str ''Cake'') (str ''CCCC'')]\<rparr>,
      modal = None, uuid_draws = Suc (Suc 0)\<rparr>"
proof -
  have l: "\<not> loading initialApp" by (simp add: initialApp_def)
  have u1: "step sampleUuid (ChangeMenuText sampleMenu) initialUI =
      \<lparr>app = initialApp\<lparr>menuText := sampleMenu\<rparr>, modal = None, uuid_draws = 0\<rparr>"
    using l by (simp add: initialUI_def)
  have u2: "step sampleUuid (ClickGenerate sampleGenEnv)
        \<lparr>app = initialApp\<lparr>menuText := sampleMenu\<rparr>, modal = None, uuid_draws = 0\<rparr> =
      \<lparr>app = initialApp
        \<lparr>menuText := sampleMenu,
         error := Some (generateErrorMessage (str ''Taco'')),
         generatedImages :=
           [newImage (sampleUuid (Suc 0)) (str ''Soup'') (str ''AAAA''),
            newImage (sampleUuid 0) (str ''Cake'') (str ''CCCC'')]\<rparr>,
        modal = None, uuid_draws = Suc (Suc 0)\<rparr>"
    using l by (simp add: sample_run0)
  show ?thesis
    unfolding run_def by (simp only: fold_simps o_apply u1 u2)
qed

theorem original_prompt_is_dish_witness:
  "originalPrompt (hd (generatedImages (app (run sampleUuid sampleEvents initialUI)))) =
     str ''Soup''"
proof -
  let ?soup = "newImage (sampleUuid (Suc 0)) (str ''Soup'') (str ''AAAA'')"
  let ?soup' = "?soup\<lparr>imageUrl := str ''data:image/jpeg;base64,AAAAB'',
         editHistory := [\<lparr>edit_prompt = str ''make it brighter'',
                          edit_imageUrl = str ''data:image/jpeg;base64,AAAAB''\<rparr>]\<rparr>"
  let ?first = "[ChangeMenuText sampleMenu, ClickGenerate sampleGenEnv]"
  let ?then = "[ClickEditPhoto 0, ChangeEditPrompt (str ''make it brighter''),
      ClickApplyEdit pngEditEnv]"
  have g: "?soup \<in> images (run sampleUuid ?first initialUI)"
    by (simp add: sample_generated images_def)
  have "run sampleUuid ?then (run sampleUuid ?first initialUI) =
      run sampleUuid sampleEvents initialUI"
    by (simp add: run_append [symmetric] sampleEvents_def)
  then have g': "?soup' \<in> images (run sampleUuid ?then (run sampleUuid ?first initialUI))"
    by (simp add: images_def sample_session)
  have same: "id_field ?soup' = id_field ?soup" by simp
  from original_prompt_is_dish
    [where gen = sampleUuid and g = ?soup and g' = ?soup' and ?events1.0 = ?first
       and ?events2.0 = ?then]
    inj_sampleUuid g g' same
  have "originalPrompt ?soup' = originalPrompt ?soup" by blast
  then show ?thesis
    by (simp add: sample_session newImage_def)
qed

end
